theory Spec2Isabelle
  imports Complex_Main "HOL-Library.Word"
begin

section \<open>JavaScript strings\<close>

text \<open>
  A JavaScript string is the list of its UTF-16 code units, as in the language: a
  character beyond U+FFFF is two units, and the operations the provider uses
  (\<open>split("\n")\<close>, \<open>trim\<close>, \<open>startsWith\<close>, \<open>slice(6)\<close>, \<open>includes\<close>,
  concatenation, equality) work on units. \<open>ustr\<close> writes an ASCII literal.
\<close>

type_synonym ustring = "nat list"

definition ustr :: "string \<Rightarrow> ustring" where
  "ustr s = map of_char s"

text \<open>\<open>s.startsWith(p)\<close>, with the comparison of characters as a parameter.\<close>

fun starts_with_by :: "('a \<Rightarrow> 'a \<Rightarrow> bool) \<Rightarrow> 'a list \<Rightarrow> 'a list \<Rightarrow> bool" where
  "starts_with_by eq [] s = True"
| "starts_with_by eq (p # ps) [] = False"
| "starts_with_by eq (p # ps) (c # cs) = (eq p c \<and> starts_with_by eq ps cs)"

definition startsWith :: "ustring \<Rightarrow> ustring \<Rightarrow> bool" where
  "startsWith s p = starts_with_by (=) p s"

text \<open>
  The first occurrence of a pattern: the text before it and the text after it.
\<close>

fun find_sub :: "('a \<Rightarrow> 'a \<Rightarrow> bool) \<Rightarrow> 'a list \<Rightarrow> 'a list \<Rightarrow> ('a list \<times> 'a list) option" where
  "find_sub eq p [] = (if p = [] then Some ([], []) else None)"
| "find_sub eq p (c # cs) =
     (if starts_with_by eq p (c # cs) then Some ([], drop (length p) (c # cs))
      else (case find_sub eq p cs of
              None \<Rightarrow> None
            | Some (before, after) \<Rightarrow> Some (c # before, after)))"

text \<open>\<open>s.includes(p)\<close> on strings.\<close>

definition includes_str :: "ustring \<Rightarrow> ustring \<Rightarrow> bool" where
  "includes_str s p = (find_sub (=) p s \<noteq> None)"

text \<open>
  \<open>String.prototype.trim\<close> removes white space and line terminators from both ends.
\<close>

definition js_whitespace :: "nat \<Rightarrow> bool" where
  "js_whitespace c =
     (c \<in> {0x9, 0xA, 0xB, 0xC, 0xD, 0x20, 0xA0, 0x1680, 0x2028, 0x2029, 0x202F, 0x205F,
            0x3000, 0xFEFF}
      \<or> (0x2000 \<le> c \<and> c \<le> 0x200A))"

definition trim :: "ustring \<Rightarrow> ustring" where
  "trim s = rev (dropWhile js_whitespace (rev (dropWhile js_whitespace s)))"

text \<open>
  \<open>s.split("\n")\<close>: the pieces between line feeds; the result always has at least one
  element, the last one being the text after the last line feed.
\<close>

fun split_nl :: "ustring \<Rightarrow> ustring list" where
  "split_nl [] = [Nil]"
| "split_nl (c # cs) =
     (if c = 0xA then [] # split_nl cs
      else (case split_nl cs of
              [] \<Rightarrow> [c] # []
            | l # ls \<Rightarrow> (c # l) # ls))"

text \<open>
  \<open>Array.prototype.pop\<close>: the last element (\<open>undefined\<close> on an empty array) and the
  array without it.
\<close>

definition pop :: "'a list \<Rightarrow> 'a option \<times> 'a list" where
  "pop xs = (if xs = [] then (None, []) else (Some (last xs), butlast xs))"

section \<open>JavaScript objects used as dictionaries\<close>

text \<open>
  \<open>pluginModels\<close> and \<open>modelContextLengths\<close> are plain objects indexed by a string. The
  model keeps the own properties as a map and writes out the two places where a plain
  object is not a dictionary: reading a key that is not an own property finds the members
  of \<open>Object.prototype\<close>, and an assignment of a string or a number to the key
  \<open>__proto__\<close> is ignored (the own properties never hold that key).
\<close>

definition object_prototype_keys :: "ustring list" where
  "object_prototype_keys =
     map ustr [''constructor'', ''__defineGetter__'', ''__defineSetter__'',
       ''hasOwnProperty'', ''__lookupGetter__'', ''__lookupSetter__'', ''isPrototypeOf'',
       ''propertyIsEnumerable'', ''toString'', ''valueOf'', ''__proto__'',
       ''toLocaleString'']"

datatype 'v js_lookup = Own 'v | Inherited | Missing

definition obj_get :: "(ustring \<rightharpoonup> 'v) \<Rightarrow> ustring \<Rightarrow> 'v js_lookup" where
  "obj_get m k =
     (if k = ustr ''__proto__'' then Inherited
      else (case m k of
              Some v \<Rightarrow> Own v
            | None \<Rightarrow> if k \<in> set object_prototype_keys then Inherited else Missing))"

definition obj_set :: "(ustring \<rightharpoonup> 'v) \<Rightarrow> ustring \<Rightarrow> 'v \<Rightarrow> (ustring \<rightharpoonup> 'v)" where
  "obj_set m k v = (if k = ustr ''__proto__'' then m else m(k \<mapsto> v))"

section \<open>Settings: credentials, model preferences, favorites\<close>

record settings =
  apiKey :: ustring
  apiUrl :: ustring
  favoriteModels :: "ustring list"
  modelContextLengths :: "ustring \<rightharpoonup> int"
  pluginModels :: "ustring \<rightharpoonup> ustring"

definition DEFAULT_SETTINGS :: settings where
  "DEFAULT_SETTINGS =
     \<lparr> apiKey = [],
       apiUrl = ustr ''https://openrouter.ai/api/v1/chat/completions'',
       favoriteModels =
         [ustr ''google/gemini-2.0-flash-exp:free'',
          ustr ''openai/gpt-4o-mini'',
          ustr ''anthropic/claude-3-haiku''],
       modelContextLengths = Map.empty,
       pluginModels = Map.empty \<rparr>"

text \<open>
  The mutators below end with \<open>saveSettings\<close>, which writes the settings to the host's
  store and leaves the settings in memory as they are; the model returns the settings in
  memory.
\<close>

definition getApiKey :: "settings \<Rightarrow> ustring" where
  "getApiKey st = apiKey st"

definition setApiKey :: "settings \<Rightarrow> ustring \<Rightarrow> settings" where
  "setApiKey st key = st\<lparr>apiKey := key\<rparr>"

text \<open>
  \<open>getModel\<close> returns
  \<open>pluginModels[pluginId] || favoriteModels[0] || "google/gemini-2.0-flash-exp:free"\<close>.
  The first operand that is truthy wins: an empty string is falsy, a member of
  \<open>Object.prototype\<close> is a truthy object and is returned as it is.
\<close>

datatype model_choice = ModelId ustring | PrototypeMember ustring

definition first_favorite_or_default :: "settings \<Rightarrow> ustring" where
  "first_favorite_or_default st =
     (case favoriteModels st of
        f # _ \<Rightarrow> if f \<noteq> [] then f else ustr ''google/gemini-2.0-flash-exp:free''
      | [] \<Rightarrow> ustr ''google/gemini-2.0-flash-exp:free'')"

definition getModel :: "settings \<Rightarrow> ustring \<Rightarrow> model_choice" where
  "getModel st pluginId =
     (case obj_get (pluginModels st) pluginId of
        Inherited \<Rightarrow> PrototypeMember pluginId
      | Own m \<Rightarrow> if m \<noteq> [] then ModelId m else ModelId (first_favorite_or_default st)
      | Missing \<Rightarrow> ModelId (first_favorite_or_default st))"

definition setModel :: "settings \<Rightarrow> ustring \<Rightarrow> ustring \<Rightarrow> settings" where
  "setModel st pluginId modelId =
     st\<lparr>pluginModels := obj_set (pluginModels st) pluginId modelId\<rparr>"

definition getFavorites :: "settings \<Rightarrow> ustring list" where
  "getFavorites st = favoriteModels st"

text \<open>
  \<open>addFavorite(modelId, contextLength = null)\<close>: \<open>push\<close> when \<open>includes\<close> is false, then
  record the context length when it is truthy (neither \<open>null\<close> nor 0).
\<close>

definition addFavorite :: "settings \<Rightarrow> ustring \<Rightarrow> int option \<Rightarrow> settings" where
  "addFavorite st modelId contextLength =
     (let favorites = (if modelId \<in> set (favoriteModels st) then favoriteModels st
                       else favoriteModels st @ [modelId]);
          lengths = (case contextLength of
                       None \<Rightarrow> modelContextLengths st
                     | Some n \<Rightarrow> if n \<noteq> 0 then obj_set (modelContextLengths st) modelId n
                                else modelContextLengths st)
      in st\<lparr>favoriteModels := favorites, modelContextLengths := lengths\<rparr>)"

definition removeFavorite :: "settings \<Rightarrow> ustring \<Rightarrow> settings" where
  "removeFavorite st modelId =
     st\<lparr>favoriteModels := filter (\<lambda>m. m \<noteq> modelId) (favoriteModels st)\<rparr>"

text \<open>A sequence of calls of the two mutators of the favorites list.\<close>

datatype favorite_op = AddFavorite ustring "int option" | RemoveFavorite ustring

fun apply_favorite_op :: "settings \<Rightarrow> favorite_op \<Rightarrow> settings" where
  "apply_favorite_op st (AddFavorite modelId contextLength) = addFavorite st modelId contextLength"
| "apply_favorite_op st (RemoveFavorite modelId) = removeFavorite st modelId"

definition apply_favorite_ops :: "settings \<Rightarrow> favorite_op list \<Rightarrow> settings" where
  "apply_favorite_ops st ops = foldl apply_favorite_op st ops"

section \<open>JSON values and the JavaScript operations on them\<close>

text \<open>
  The value of a parsed JSON text. A number is represented by its canonical rendering
  \<open>String(n)\<close> (such as \<open>42\<close>, \<open>1.5\<close>, \<open>0\<close>), which is all the provider ever does with
  one: test it for truthiness and concatenate it to a string. An object is the list of
  its members, looked up from the front (the parser has resolved repeated keys).
  \<open>undefined\<close> is \<open>None\<close> of \<open>json option\<close>.
\<close>

datatype json =
    JNull
  | JBool bool
  | JNum ustring
  | JStr ustring
  | JArr "json list"
  | JObj "(ustring \<times> json) list"

fun truthy :: "json \<Rightarrow> bool" where
  "truthy JNull = False"
| "truthy (JBool b) = b"
| "truthy (JNum n) = (n \<noteq> ustr ''0'' \<and> n \<noteq> ustr ''NaN'')"
| "truthy (JStr s) = (s \<noteq> [])"
| "truthy (JArr xs) = True"
| "truthy (JObj kvs) = True"

fun truthy_opt :: "json option \<Rightarrow> bool" where
  "truthy_opt None = False"
| "truthy_opt (Some v) = truthy v"

text \<open>
  \<open>v.name\<close> on a value that is neither \<open>null\<close> nor \<open>undefined\<close>, for the names the
  provider reads (\<open>choices\<close>, \<open>delta\<close>, \<open>message\<close>, \<open>content\<close>, \<open>reasoning\<close>, \<open>error\<close>),
  none of which a prototype defines: only an object can have such a member.
\<close>

fun js_member :: "json \<Rightarrow> ustring \<Rightarrow> json option" where
  "js_member (JObj kvs) name = map_of kvs name"
| "js_member v name = None"

text \<open>\<open>v?.name\<close>: \<open>undefined\<close> when \<open>v\<close> is \<open>null\<close> or \<open>undefined\<close>.\<close>

fun opt_member :: "json option \<Rightarrow> ustring \<Rightarrow> json option" where
  "opt_member None name = None"
| "opt_member (Some JNull) name = None"
| "opt_member (Some v) name = js_member v name"

text \<open>
  \<open>v?.[0]\<close>: the first element of an array, the first code unit of a string, the member
  \<open>"0"\<close> of an object.
\<close>

fun opt_first :: "json option \<Rightarrow> json option" where
  "opt_first (Some (JArr xs)) = (case xs of [] \<Rightarrow> None | x # _ \<Rightarrow> Some x)"
| "opt_first (Some (JStr s)) = (case s of [] \<Rightarrow> None | c # _ \<Rightarrow> Some (JStr [c]))"
| "opt_first (Some (JObj kvs)) = map_of kvs (ustr ''0'')"
| "opt_first v = None"

text \<open>\<open>v || ""\<close>.\<close>

definition or_empty :: "json option \<Rightarrow> json" where
  "or_empty v = (case v of Some x \<Rightarrow> if truthy x then x else JStr [] | None \<Rightarrow> JStr [])"

text \<open>
  The string a value becomes when it is concatenated to a string or put into a template
  literal; \<open>None\<close> when the conversion throws a \<open>TypeError\<close>. An object is converted
  by its \<open>toString\<close> and \<open>valueOf\<close> methods: a parsed object inherits both, and the
  inherited \<open>valueOf\<close> returns the object itself, so the result is that of the inherited
  \<open>toString\<close>, \<open>[object Object]\<close>, unless the object has a member of its own named
  \<open>toString\<close>, which is not callable: then no method yields a primitive value and the
  conversion throws. An array is converted by \<open>join\<close>, which converts each element
  (\<open>null\<close> to the empty string).
\<close>

fun join_comma :: "ustring list \<Rightarrow> ustring" where
  "join_comma [] = []"
| "join_comma [x] = x"
| "join_comma (x # y # ys) = x @ ustr '','' @ join_comma (y # ys)"

fun js_to_string :: "json \<Rightarrow> ustring option" where
  "js_to_string JNull = Some (ustr ''null'')"
| "js_to_string (JBool b) = Some (if b then ustr ''true'' else ustr ''false'')"
| "js_to_string (JNum n) = Some n"
| "js_to_string (JStr s) = Some s"
| "js_to_string (JArr xs) =
     map_option join_comma
       (those (map (\<lambda>x. if x = JNull then Some [] else js_to_string x) xs))"
| "js_to_string (JObj kvs) =
     (if map_of kvs (ustr ''toString'') = None then Some (ustr ''[object Object]'') else None)"

text \<open>Replacing a member of an object (the first binding of the key is the live one).\<close>

fun set_key :: "ustring \<Rightarrow> json \<Rightarrow> (ustring \<times> json) list \<Rightarrow> (ustring \<times> json) list" where
  "set_key k v [] = [(k, v)]"
| "set_key k v ((k', v') # kvs) =
     (if k = k' then (k, v) # kvs else (k', v') # set_key k v kvs)"

section \<open>Think-tag patterns\<close>

text \<open>
  \<open>content.match(/<think>([\s\S]*?)<\/think>/)\<close>: the leftmost match starts at the
  first \<open><think>\<close> and, the quantifier being lazy, ends at the first \<open></think>\<close> after
  it; the result is the captured group. There is no match when no \<open></think>\<close> follows
  the first \<open><think>\<close> (then none follows a later one either).
\<close>

definition think_match :: "ustring \<Rightarrow> ustring option" where
  "think_match content =
     (case find_sub (=) (ustr ''<think>'') content of
        None \<Rightarrow> None
      | Some (before, rest) \<Rightarrow>
          (case find_sub (=) (ustr ''</think>'') rest of
             None \<Rightarrow> None
           | Some (inner, after) \<Rightarrow> Some inner))"

text \<open>
  The flag \<open>i\<close> (without \<open>u\<close>) compares characters by their upper case, and never lets
  a character outside ASCII match an ASCII one: for the letters of the tags this is
  equality up to the case of ASCII letters.
\<close>

definition ascii_upper :: "nat \<Rightarrow> nat" where
  "ascii_upper c = (if 0x61 \<le> c \<and> c \<le> 0x7A then c - 0x20 else c)"

definition eq_ignore_case :: "nat \<Rightarrow> nat \<Rightarrow> bool" where
  "eq_ignore_case a b = (ascii_upper a = ascii_upper b)"

text \<open>
  \<open>s.replace(/<think>[\s\S]*?<\/think>/gi, "")\<close>: every match, from left to right, is
  removed. The scanner copies characters until a match starts, and then skips the
  characters of the match; the first argument counts the characters still to skip.
\<close>

fun strip_think_from :: "nat \<Rightarrow> ustring \<Rightarrow> ustring" where
  "strip_think_from k [] = []"
| "strip_think_from k (c # cs) =
     (if 0 < k then strip_think_from (k - 1) cs
      else if starts_with_by eq_ignore_case (ustr ''<think>'') (c # cs) then
        (case find_sub eq_ignore_case (ustr ''</think>'') (drop 7 (c # cs)) of
           None \<Rightarrow> c # cs
         | Some (inner, after) \<Rightarrow> strip_think_from (7 + length inner + 8 - 1) cs)
      else c # strip_think_from 0 cs)"

definition strip_think :: "ustring \<Rightarrow> ustring" where
  "strip_think s = strip_think_from 0 s"

section \<open>Errors, callbacks and the console\<close>

text \<open>
  The values the provider throws or receives as rejections. \<open>ApiError status detail\<close> is
  \<open>Error("API Error <status>")\<close>, with \<open>": <detail>"\<close> appended when there is a
  detail; \<open>NoResponseBody\<close> is \<open>Error("No response body")\<close>; \<open>TypeError\<close> is what the
  language throws on reading a property of \<open>null\<close> or calling what is not a function;
  \<open>SyntaxError\<close> is a failed JSON parse; \<open>TransportError\<close> is any other rejection of
  the platform (connection reset, timeout) with its message. Only \<open>AbortError\<close> has the
  name \<open>AbortError\<close>.
\<close>

datatype js_error =
    AbortError
  | ApiError int "ustring option"
  | NoResponseBody
  | TypeError
  | SyntaxError
  | TransportError ustring

text \<open>
  The callbacks of a streaming request, in the order of their invocation, with the
  argument each one received.
\<close>

datatype event =
    OnToken json
  | OnReasoning json
  | OnComplete json
  | OnError js_error

datatype console_entry =
    ConsoleWarn ustring
  | ConsoleLog ustring
  | ConsoleError js_error

section \<open>The text decoder\<close>

text \<open>
  Modelled from the spec: the platform's \<open>TextDecoder\<close>, which is not part of the
  repository. The specification asks of it that it "tolerate multi-byte characters split
  across chunk boundaries" and "defer undecodable trailing bytes to the next chunk"; this
  is \<open>new TextDecoder("utf-8")\<close> with \<open>decode(value, {stream: true})\<close>, written here
  after the Encoding standard. The UTF-8 decoder reads one byte at a time and keeps the
  code point under construction between calls; an ill-formed sequence yields U+FFFD, and
  the byte that broke a sequence is read again as the start of a new one. The decoder
  object drops a byte order mark when it is the first code point of the stream. The
  provider never makes the final call without \<open>stream\<close>, so an unfinished sequence at
  the end of the body is never flushed.
\<close>

record utf8_decoder =
  code_point :: nat
  bytes_seen :: nat
  bytes_needed :: nat
  lower_boundary :: nat
  upper_boundary :: nat

definition utf8_initial :: utf8_decoder where
  "utf8_initial =
     \<lparr> code_point = 0, bytes_seen = 0, bytes_needed = 0,
       lower_boundary = 0x80, upper_boundary = 0xBF \<rparr>"

text \<open>A byte read when no sequence is open (\<open>b mod 32\<close> is \<open>b & 0x1F\<close>, and so on).\<close>

definition utf8_lead :: "nat \<Rightarrow> utf8_decoder \<times> nat list" where
  "utf8_lead b =
     (if b \<le> 0x7F then (utf8_initial, [b])
      else if 0xC2 \<le> b \<and> b \<le> 0xDF then
        (utf8_initial\<lparr>bytes_needed := 1, code_point := b mod 32\<rparr>, [])
      else if 0xE0 \<le> b \<and> b \<le> 0xEF then
        (utf8_initial\<lparr>lower_boundary := (if b = 0xE0 then 0xA0 else 0x80),
                      upper_boundary := (if b = 0xED then 0x9F else 0xBF),
                      bytes_needed := 2, code_point := b mod 16\<rparr>, [])
      else if 0xF0 \<le> b \<and> b \<le> 0xF4 then
        (utf8_initial\<lparr>lower_boundary := (if b = 0xF0 then 0x90 else 0x80),
                      upper_boundary := (if b = 0xF4 then 0x8F else 0xBF),
                      bytes_needed := 3, code_point := b mod 8\<rparr>, [])
      else (utf8_initial, [0xFFFD]))"

text \<open>One byte: \<open>code_point * 64 + b mod 64\<close> is \<open>(code_point << 6) | (b & 0x3F)\<close>.\<close>

definition utf8_byte :: "utf8_decoder \<Rightarrow> nat \<Rightarrow> utf8_decoder \<times> nat list" where
  "utf8_byte d b =
     (if bytes_needed d = 0 then utf8_lead b
      else if b < lower_boundary d \<or> upper_boundary d < b then
        (case utf8_lead b of (d', out) \<Rightarrow> (d', 0xFFFD # out))
      else
        (let d1 = d\<lparr>lower_boundary := 0x80, upper_boundary := 0xBF,
                     code_point := code_point d * 64 + b mod 64,
                     bytes_seen := bytes_seen d + 1\<rparr>
         in if bytes_seen d1 \<noteq> bytes_needed d1 then (d1, [])
            else (utf8_initial, [code_point d1])))"

fun utf8_bytes :: "utf8_decoder \<Rightarrow> 8 word list \<Rightarrow> utf8_decoder \<times> nat list" where
  "utf8_bytes d [] = (d, [])"
| "utf8_bytes d (b # bs) =
     (case utf8_byte d (unat b) of
        (d1, out1) \<Rightarrow> (case utf8_bytes d1 bs of (d2, out2) \<Rightarrow> (d2, out1 @ out2)))"

record text_decoder =
  utf8 :: utf8_decoder
  bom_seen :: bool

definition new_TextDecoder :: text_decoder where
  "new_TextDecoder = \<lparr> utf8 = utf8_initial, bom_seen = False \<rparr>"

text \<open>The first code point of the stream is dropped when it is U+FEFF.\<close>

fun serialize :: "bool \<Rightarrow> nat list \<Rightarrow> bool \<times> nat list" where
  "serialize seen [] = (seen, [])"
| "serialize seen (c # cs) =
     (if seen then (True, c # cs) else (True, if c = 0xFEFF then cs else c # cs))"

text \<open>
  The text that \<open>decode\<close> returns is a JavaScript string: each code point comes out as
  its UTF-16 code units, itself or, beyond U+FFFF, a surrogate pair.
\<close>

definition utf16_units :: "nat \<Rightarrow> ustring" where
  "utf16_units cp =
     (if cp < 0x10000 then [cp]
      else [0xD800 + (cp - 0x10000) div 0x400, 0xDC00 + (cp - 0x10000) mod 0x400])"

definition decode :: "text_decoder \<Rightarrow> 8 word list \<Rightarrow> text_decoder \<times> ustring" where
  "decode td bytes =
     (case utf8_bytes (utf8 td) bytes of
        (u, cps) \<Rightarrow>
          (case serialize (bom_seen td) cps of
             (seen, out) \<Rightarrow>
               (\<lparr> utf8 = u, bom_seen = seen \<rparr>, concat (map utf16_units out))))"

section \<open>StreamManager.streamRequest\<close>

text \<open>
  What \<open>fetch\<close> delivers. The body reader is the script of what the successive
  \<open>reader.read()\<close> calls give: a chunk of bytes, the end of the body, or a rejection (an
  \<open>AbortError\<close> when the caller aborts, a transport error otherwise). A body that never
  ends is not represented. \<open>json_result\<close> is what \<open>await response.json()\<close> gives: the
  parsed body, or a rejection.
\<close>

datatype body_reader =
    Done
  | Chunk "8 word list" body_reader
  | ReadError js_error

record response =
  ok :: bool
  status :: int
  statusText :: ustring
  has_body :: bool
  content_type :: "ustring option"
  json_result :: "js_error + json"
  body :: body_reader

datatype fetch_result = FetchRejected js_error | FetchResolved response

text \<open>
  A request as far as the provider decides it: the address, the bearer token of the
  \<open>Authorization\<close> header, and whether the provider adds \<open>stream: true\<close> to the
  payload. The payload itself passes through unread.
\<close>

record request =
  url :: ustring
  bearer :: ustring
  streaming :: bool

text \<open>
  The state of one streaming request: the local variables \<open>fullText\<close>, \<open>buffer\<close> and
  \<open>decoder\<close> of the source, the callbacks invoked and the console lines written so far.
\<close>

record session =
  fullText :: ustring
  buffer :: ustring
  decoder :: text_decoder
  calls :: "event list"
  console :: "console_entry list"

definition new_session :: session where
  "new_session =
     \<lparr> fullText = [], buffer = [], decoder = new_TextDecoder, calls = [], console = [] \<rparr>"

text \<open>
  The \<open>catch\<close> block of \<open>streamRequest\<close>: an \<open>AbortError\<close> is logged and nothing is
  called; any other error is logged and given to \<open>onError\<close>.
\<close>

definition catch_error :: "session \<Rightarrow> js_error \<Rightarrow> session" where
  "catch_error s e =
     (if e = AbortError then s\<lparr>console := console s @ [ConsoleLog (ustr ''Stream aborted'')]\<rparr>
      else s\<lparr>console := console s @ [ConsoleError e], calls := calls s @ [OnError e]\<rparr>)"

text \<open>
  The body of the \<open>try\<close> inside the loop, for a line that starts with \<open>data: \<close>.
  \<open>parse\<close> is \<open>JSON.parse\<close> (\<open>None\<close> when it throws); \<open>onReasoning\<close> tells whether the
  optional callback was passed. Three things throw inside the \<open>try\<close>: the parse,
  \<open>data.choices\<close> on \<open>null\<close>, and the conversion of the content to a string in
  \<open>fullText += delta.content\<close>, which comes before \<open>onToken\<close>. Each ends in the
  \<open>console.warn\<close> of the inner \<open>catch\<close>, which names the line as it was read, and
  nothing else of the line is done.
\<close>

definition handle_data ::
  "(ustring \<Rightarrow> json option) \<Rightarrow> bool \<Rightarrow> session \<Rightarrow> ustring \<Rightarrow> ustring \<Rightarrow> session" where
  "handle_data parse onReasoning s line trimmed =
     (case parse (drop 6 trimmed) of
        None \<Rightarrow> s\<lparr>console := console s @ [ConsoleWarn line]\<rparr>
      | Some JNull \<Rightarrow> s\<lparr>console := console s @ [ConsoleWarn line]\<rparr>
      | Some data \<Rightarrow>
          (case opt_member (opt_first (js_member data (ustr ''choices''))) (ustr ''delta'') of
             None \<Rightarrow> s
           | Some delta \<Rightarrow>
               if truthy delta then
                 (case (case js_member delta (ustr ''content'') of
                          None \<Rightarrow> Some s
                        | Some content \<Rightarrow>
                            if truthy content then
                              (case js_to_string content of
                                 None \<Rightarrow> None
                               | Some text \<Rightarrow>
                                   Some (s\<lparr>fullText := fullText s @ text,
                                           calls := calls s @ [OnToken content]\<rparr>))
                            else Some s) of
                    None \<Rightarrow> s\<lparr>console := console s @ [ConsoleWarn line]\<rparr>
                  | Some s1 \<Rightarrow>
                      (case js_member delta (ustr ''reasoning'') of
                         None \<Rightarrow> s1
                       | Some reasoning \<Rightarrow>
                           if truthy reasoning \<and> onReasoning then
                             s1\<lparr>calls := calls s1 @ [OnReasoning reasoning]\<rparr>
                           else s1))
               else s))"

text \<open>The body of \<open>for (const line of lines)\<close>.\<close>

definition process_line ::
  "(ustring \<Rightarrow> json option) \<Rightarrow> bool \<Rightarrow> session \<Rightarrow> ustring \<Rightarrow> session" where
  "process_line parse onReasoning s line =
     (let trimmed = trim line in
      if trimmed = [] \<or> trimmed = ustr ''data: [DONE]'' then s
      else if startsWith trimmed (ustr ''data: '') then
        handle_data parse onReasoning s line trimmed
      else s)"

text \<open>What one line does to a session that has nothing yet.\<close>

definition line_effect ::
  "(ustring \<Rightarrow> json option) \<Rightarrow> bool \<Rightarrow> ustring \<Rightarrow> session" where
  "line_effect parse onReasoning line = process_line parse onReasoning new_session line"

text \<open>
  One turn of \<open>while (true)\<close> with a chunk: decode, append to the buffer, split, keep the
  last piece (\<open>lines.pop() || ""\<close>) and handle the lines before it.
\<close>

definition read_chunk ::
  "(ustring \<Rightarrow> json option) \<Rightarrow> bool \<Rightarrow> session \<Rightarrow> 8 word list \<Rightarrow> session" where
  "read_chunk parse onReasoning s bytes =
     (case decode (decoder s) bytes of
        (td, chunk) \<Rightarrow>
          (case pop (split_nl (buffer s @ chunk)) of
             (popped, lines) \<Rightarrow>
               foldl (process_line parse onReasoning)
                 (s\<lparr>decoder := td,
                    buffer := (case popped of
                                 None \<Rightarrow> []
                               | Some l \<Rightarrow> if l \<noteq> [] then l else [])\<rparr>)
                 lines))"

text \<open>
  The loop: it ends normally when the reader reports the end of the body, and with the
  rejection when \<open>reader.read()\<close> rejects. The session comes back in both cases, with
  the callbacks made before the rejection.
\<close>

fun read_loop ::
  "(ustring \<Rightarrow> json option) \<Rightarrow> bool \<Rightarrow> session \<Rightarrow> body_reader \<Rightarrow> session \<times> js_error option" where
  "read_loop parse onReasoning s Done = (s, None)"
| "read_loop parse onReasoning s (Chunk bytes rest) =
     read_loop parse onReasoning (read_chunk parse onReasoning s bytes) rest"
| "read_loop parse onReasoning s (ReadError e) = (s, Some e)"

text \<open>
  The message of the error for a response that is not \<open>ok\<close>: the truthy
  \<open>errorJson?.error?.message\<close>, or the status text when the \<open>try\<close> throws, be it
  \<open>response.json()\<close> that rejects or the template literal that cannot convert the
  message.
\<close>

definition error_detail :: "response \<Rightarrow> ustring option" where
  "error_detail r =
     (case json_result r of
        Inl e \<Rightarrow> Some (statusText r)
      | Inr errorJson \<Rightarrow>
          (case opt_member (opt_member (Some errorJson) (ustr ''error'')) (ustr ''message'') of
             None \<Rightarrow> None
           | Some m \<Rightarrow>
               if truthy m then
                 (case js_to_string m of None \<Rightarrow> Some (statusText r) | Some text \<Rightarrow> Some text)
               else None))"

text \<open>
  The reasoning part of the single-document branch. \<open>content.includes\<close> exists on
  strings and arrays only, and \<open>content.match\<close> on strings only: the call throws a
  \<open>TypeError\<close> on any other truthy content.
\<close>

definition fallback_reasoning :: "bool \<Rightarrow> session \<Rightarrow> json \<Rightarrow> json \<Rightarrow> js_error + session" where
  "fallback_reasoning onReasoning s content reasoning =
     (if truthy reasoning \<and> onReasoning then
        Inr (s\<lparr>calls := calls s @ [OnReasoning reasoning]\<rparr>)
      else
        (case content of
           JStr c \<Rightarrow>
             if includes_str c (ustr ''<think>'') then
               (case think_match c of
                  None \<Rightarrow> Inr s
                | Some inner \<Rightarrow>
                    if onReasoning then Inr (s\<lparr>calls := calls s @ [OnReasoning (JStr inner)]\<rparr>)
                    else Inr s)
             else Inr s
         | JArr xs \<Rightarrow> if JStr (ustr ''<think>'') \<in> set xs then Inl TypeError else Inr s
         | _ \<Rightarrow> Inl TypeError))"

text \<open>
  The single-document branch, from \<open>const choice = json.choices?.[0]\<close> to its
  \<open>return\<close>: \<open>Inl\<close> is an error thrown, \<open>Inr\<close> the session at the \<open>return\<close>.
\<close>

definition json_fallback :: "bool \<Rightarrow> session \<Rightarrow> json \<Rightarrow> js_error + session" where
  "json_fallback onReasoning s json =
     (if json = JNull then Inl TypeError
      else
        (case opt_first (js_member json (ustr ''choices'')) of
           None \<Rightarrow> Inr s
         | Some choice \<Rightarrow>
             if truthy choice then
               (let message = js_member choice (ustr ''message'');
                    content = or_empty (opt_member message (ustr ''content''));
                    reasoning = or_empty (opt_member message (ustr ''reasoning''))
                in (case fallback_reasoning onReasoning s content reasoning of
                      Inl e \<Rightarrow> Inl e
                    | Inr s1 \<Rightarrow>
                        (let s2 = (if truthy content
                                   then s1\<lparr>calls := calls s1 @ [OnToken content]\<rparr> else s1)
                         in Inr (s2\<lparr>calls := calls s2 @ [OnComplete content]\<rparr>))))
             else Inr s))"

text \<open>
  \<open>(response.headers.get("content-type") || "").includes("application/json")\<close>.
\<close>

definition declares_json :: "response \<Rightarrow> bool" where
  "declares_json r =
     includes_str (case content_type r of None \<Rightarrow> [] | Some c \<Rightarrow> if c \<noteq> [] then c else [])
       (ustr ''application/json'')"

text \<open>
  The \<open>try\<close> block after \<open>await fetch(...)\<close>, with its \<open>catch\<close>. The result is the
  session at the end of the call: the callbacks invoked, in order, and the console.
\<close>

definition handle_fetched ::
  "(ustring \<Rightarrow> json option) \<Rightarrow> bool \<Rightarrow> fetch_result \<Rightarrow> session" where
  "handle_fetched parse onReasoning fetched =
     (case fetched of
        FetchRejected e \<Rightarrow> catch_error new_session e
      | FetchResolved r \<Rightarrow>
          if \<not> ok r then catch_error new_session (ApiError (status r) (error_detail r))
          else if \<not> has_body r then catch_error new_session NoResponseBody
          else if declares_json r then
            (case json_result r of
               Inl e \<Rightarrow> catch_error new_session e
             | Inr json \<Rightarrow>
                 (case json_fallback onReasoning new_session json of
                    Inl e \<Rightarrow> catch_error new_session e
                  | Inr s \<Rightarrow> s))
          else
            (case read_loop parse onReasoning new_session (body r) of
               (s, Some e) \<Rightarrow> catch_error s e
             | (s, None) \<Rightarrow> s\<lparr>calls := calls s @ [OnComplete (JStr (fullText s))]\<rparr>))"

text \<open>
  \<open>StreamManager.streamRequest(url, apiKey, requestBody, onToken, onError, onComplete,
  abortController, onReasoning)\<close>. \<open>fetch\<close> is the platform's function; the three
  mandatory callbacks are the events of the session; an abort shows as the
  \<open>AbortError\<close> with which \<open>fetch\<close>, \<open>response.json()\<close> or \<open>reader.read()\<close> rejects.
  The callbacks are the caller's functions and are taken to return normally.
\<close>

definition StreamManager_streamRequest ::
  "(request \<Rightarrow> fetch_result) \<Rightarrow> (ustring \<Rightarrow> json option) \<Rightarrow> ustring \<Rightarrow> ustring \<Rightarrow> bool \<Rightarrow> session" where
  "StreamManager_streamRequest fetch parse url' apiKey' onReasoning =
     handle_fetched parse onReasoning
       (fetch \<lparr> url = url', bearer = apiKey', streaming = True \<rparr>)"

subsection \<open>The revision without reasoning\<close>

text \<open>
  The repository holds two revisions of \<open>StreamManager.streamRequest\<close>. The one above
  has the parameter \<open>onReasoning\<close> and the single-document branch. The other
  (\<open>src/streamManager.ts\<close>) has neither: it reads \<open>data.choices?.[0]?.delta?.content\<close>,
  calls \<open>onToken\<close> when that is truthy, reads the \<open>finish_reason\<close> without acting on
  it, and treats every body as a stream. Its loop and its error handling are otherwise
  the same.
\<close>

definition handle_data_plain ::
  "(ustring \<Rightarrow> json option) \<Rightarrow> session \<Rightarrow> ustring \<Rightarrow> ustring \<Rightarrow> session" where
  "handle_data_plain parse s line trimmed =
     (case parse (drop 6 trimmed) of
        None \<Rightarrow> s\<lparr>console := console s @ [ConsoleWarn line]\<rparr>
      | Some JNull \<Rightarrow> s\<lparr>console := console s @ [ConsoleWarn line]\<rparr>
      | Some data \<Rightarrow>
          (case opt_member
                  (opt_member (opt_first (js_member data (ustr ''choices''))) (ustr ''delta''))
                  (ustr ''content'') of
             None \<Rightarrow> s
           | Some delta \<Rightarrow>
               if truthy delta then
                 (case js_to_string delta of
                    None \<Rightarrow> s\<lparr>console := console s @ [ConsoleWarn line]\<rparr>
                  | Some text \<Rightarrow>
                      s\<lparr>fullText := fullText s @ text,
                        calls := calls s @ [OnToken delta]\<rparr>)
               else s))"

definition process_line_plain ::
  "(ustring \<Rightarrow> json option) \<Rightarrow> session \<Rightarrow> ustring \<Rightarrow> session" where
  "process_line_plain parse s line =
     (let trimmed = trim line in
      if trimmed = [] \<or> trimmed = ustr ''data: [DONE]'' then s
      else if startsWith trimmed (ustr ''data: '') then handle_data_plain parse s line trimmed
      else s)"

definition read_chunk_plain ::
  "(ustring \<Rightarrow> json option) \<Rightarrow> session \<Rightarrow> 8 word list \<Rightarrow> session" where
  "read_chunk_plain parse s bytes =
     (case decode (decoder s) bytes of
        (td, chunk) \<Rightarrow>
          (case pop (split_nl (buffer s @ chunk)) of
             (popped, lines) \<Rightarrow>
               foldl (process_line_plain parse)
                 (s\<lparr>decoder := td,
                    buffer := (case popped of
                                 None \<Rightarrow> []
                               | Some l \<Rightarrow> if l \<noteq> [] then l else [])\<rparr>)
                 lines))"

fun read_loop_plain ::
  "(ustring \<Rightarrow> json option) \<Rightarrow> session \<Rightarrow> body_reader \<Rightarrow> session \<times> js_error option" where
  "read_loop_plain parse s Done = (s, None)"
| "read_loop_plain parse s (Chunk bytes rest) =
     read_loop_plain parse (read_chunk_plain parse s bytes) rest"
| "read_loop_plain parse s (ReadError e) = (s, Some e)"

definition StreamManager_streamRequest_plain ::
  "(request \<Rightarrow> fetch_result) \<Rightarrow> (ustring \<Rightarrow> json option) \<Rightarrow> ustring \<Rightarrow> ustring \<Rightarrow> session" where
  "StreamManager_streamRequest_plain fetch parse url' apiKey' =
     (case fetch \<lparr> url = url', bearer = apiKey', streaming = True \<rparr> of
        FetchRejected e \<Rightarrow> catch_error new_session e
      | FetchResolved r \<Rightarrow>
          if \<not> ok r then catch_error new_session (ApiError (status r) (error_detail r))
          else if \<not> has_body r then catch_error new_session NoResponseBody
          else
            (case read_loop_plain parse new_session (body r) of
               (s, Some e) \<Rightarrow> catch_error s e
             | (s, None) \<Rightarrow> s\<lparr>calls := calls s @ [OnComplete (JStr (fullText s))]\<rparr>))"

section \<open>The provider: streaming, retries, credits\<close>

text \<open>
  What the provider shows while streaming: the notice of the missing key, and the calls
  on the status bar.
\<close>

datatype ui_effect =
    NoticeKeyMissing
  | SetConnecting
  | SetThinking
  | SetGenerating
  | UpdateProgress nat
  | SetSuccess
  | SetError ustring

text \<open>
  \<open>OpenRouterProvider.streamRequest(requestBody, onToken, onComplete, onError)\<close>: without a
  key it shows a notice and returns. Otherwise it calls the stream manager with three
  callbacks, each of which updates the status bar and then calls the caller's; it passes
  no \<open>onReasoning\<close>. \<open>model\<close> is \<open>requestBody.model\<close>.
\<close>

record stream_run =
  sent :: "request list"
  shown :: "ui_effect list"
  callbacks :: "event list"

fun status_of_event :: "event \<Rightarrow> ui_effect list" where
  "status_of_event (OnToken t) = [UpdateProgress 1]"
| "status_of_event (OnError e) = [SetError (ustr ''Stream Error'')]"
| "status_of_event (OnComplete t) = [SetSuccess]"
| "status_of_event (OnReasoning r) = []"

definition streamRequest ::
  "settings \<Rightarrow> (request \<Rightarrow> fetch_result) \<Rightarrow> (ustring \<Rightarrow> json option) \<Rightarrow> ustring \<Rightarrow> stream_run" where
  "streamRequest st fetch parse model =
     (if apiKey st = [] then \<lparr> sent = [], shown = [NoticeKeyMissing], callbacks = [] \<rparr>
      else
        (let s = StreamManager_streamRequest fetch parse (apiUrl st) (apiKey st) False
         in \<lparr> sent = [\<lparr> url = apiUrl st, bearer = apiKey st, streaming = True \<rparr>],
              shown = [SetConnecting]
                @ (if includes_str model (ustr ''deepseek'') \<or> includes_str model (ustr ''reasoner'')
                   then [SetThinking] else [])
                @ concat (map status_of_event (calls s)),
              callbacks = calls s \<rparr>))"

text \<open>
  What \<open>requestUrl\<close> delivers, as \<open>fetchWithRetry\<close> reads it: a response with its
  status and its \<open>json\<close> getter (\<open>None\<close> when the getter throws because the body is
  not JSON), or a rejection. The assignment to the content inside \<open>response.json\<close> is
  taken to change the value the caller reads from the returned response.
\<close>

record url_response =
  url_status :: int
  url_json :: "json option"

datatype transport_result = Responds url_response | Rejects js_error

text \<open>
  The cleaning of think tags in \<open>fetchWithRetry\<close>: when
  \<open>response.json?.choices?.[0]?.message?.content\<close> is truthy it is replaced by itself
  without the tagged blocks, trimmed. \<open>replace\<close> exists on strings only.
\<close>

definition response_content :: "json \<Rightarrow> json option" where
  "response_content j =
     opt_member (opt_member (opt_first (opt_member (Some j) (ustr ''choices''))) (ustr ''message''))
       (ustr ''content'')"

text \<open>
  The assignment \<open>json.choices[0].message.content = v\<close>, on the shapes for which the
  content can be truthy: \<open>choices\<close> an array, or an object with the member \<open>"0"\<close>.
\<close>

definition put_message_content :: "json \<Rightarrow> json \<Rightarrow> json" where
  "put_message_content choice v =
     (case choice of
        JObj ckvs \<Rightarrow>
          (case map_of ckvs (ustr ''message'') of
             Some (JObj mkvs) \<Rightarrow>
               JObj (set_key (ustr ''message'') (JObj (set_key (ustr ''content'') v mkvs)) ckvs)
           | _ \<Rightarrow> choice)
      | _ \<Rightarrow> choice)"

definition put_content :: "json \<Rightarrow> json \<Rightarrow> json" where
  "put_content j v =
     (case j of
        JObj kvs \<Rightarrow>
          (case map_of kvs (ustr ''choices'') of
             Some (JArr (choice # rest)) \<Rightarrow>
               JObj (set_key (ustr ''choices'') (JArr (put_message_content choice v # rest)) kvs)
           | Some (JObj cs) \<Rightarrow>
               (case map_of cs (ustr ''0'') of
                  Some choice \<Rightarrow>
                    JObj (set_key (ustr ''choices'')
                            (JObj (set_key (ustr ''0'') (put_message_content choice v) cs)) kvs)
                | None \<Rightarrow> j)
           | _ \<Rightarrow> j)
      | _ \<Rightarrow> j)"

definition clean_think :: "url_response \<Rightarrow> js_error + url_response" where
  "clean_think r =
     (case url_json r of
        None \<Rightarrow> Inl SyntaxError
      | Some j \<Rightarrow>
          (case response_content j of
             None \<Rightarrow> Inr r
           | Some c \<Rightarrow>
               if truthy c then
                 (case c of
                    JStr text \<Rightarrow>
                      Inr (r\<lparr>url_json := Some (put_content j (JStr (trim (strip_think text))))\<rparr>)
                  | _ \<Rightarrow> Inl TypeError)
               else Inr r))"

text \<open>
  One attempt of \<open>fetchWithRetry\<close> after the request: the response is a rate limit
  (status 429), a failure (an error thrown inside the \<open>try\<close>: the rejection of
  \<open>requestUrl\<close>, a status of 400 or more, an error while cleaning), or the response to
  return.
\<close>

datatype attempt = RateLimited | Failed js_error | Succeeded url_response

text \<open>
  The error for a status of 400 or more: \<open>API Error\<close> with the status and, when
  \<open>errJson?.error?.message\<close> is truthy, that message. The \<open>try\<close> around it has an empty
  \<open>catch\<close>: when the \<open>json\<close> getter throws, or the template literal cannot convert the
  message, the error has no detail.
\<close>

definition api_error_of :: "url_response \<Rightarrow> js_error" where
  "api_error_of r =
     ApiError (url_status r)
       (case opt_member (opt_member (url_json r) (ustr ''error'')) (ustr ''message'') of
          None \<Rightarrow> None
        | Some m \<Rightarrow> if truthy m then js_to_string m else None)"

definition classify :: "transport_result \<Rightarrow> attempt" where
  "classify t =
     (case t of
        Rejects e \<Rightarrow> Failed e
      | Responds r \<Rightarrow>
          if url_status r = 429 then RateLimited
          else if url_status r \<ge> 400 then Failed (api_error_of r)
          else (case clean_think r of Inl e \<Rightarrow> Failed e | Inr r' \<Rightarrow> Succeeded r'))"

text \<open>
  The delay is a JavaScript number, and \<open>delay *= 2\<close> and \<open>delay *= 1.5\<close> are products of
  the platform's floating point arithmetic. The two products are parameters, over any
  type \<open>'n\<close> of numbers. \<open>exact\<close> is the arithmetic of the rational numbers, with which
  the platform agrees wherever the product is a number it can represent, as for the
  delays 2000, 4000 and 8000 and for 2000 and 3000.
\<close>

record 'n arithmetic =
  times_2 :: "'n \<Rightarrow> 'n"
  times_1_5 :: "'n \<Rightarrow> 'n"

definition exact :: "rat arithmetic" where
  "exact = \<lparr> times_2 = (\<lambda>d. d * 2), times_1_5 = (\<lambda>d. d * (3 / 2)) \<rparr>"

text \<open>
  What \<open>fetchWithRetry\<close> shows: calls on the status bar, and for a rate limit the notice
  and the status bar text, which carry the delay (in milliseconds) they announce.
\<close>

datatype 'n retry_effect =
    StatusBar ui_effect
  | NoticeRateLimit 'n
  | SetText 'n

text \<open>
  The effects of a call of \<open>fetchWithRetry\<close>: the requests sent, the delays waited (in
  milliseconds, in order), the notices and status bar calls.
\<close>

record 'n retry_io =
  requests :: "request list"
  waits :: "'n list"
  ui :: "'n retry_effect list"

datatype fetch_outcome = Returned url_response | Thrown js_error | ReturnedUndefined

text \<open>
  The loop \<open>for (let i = 0; i < retries; i++)\<close>. \<open>transport n\<close> is what \<open>requestUrl\<close>
  delivers for the request sent after \<open>n\<close> earlier ones. Leaving the loop by its
  condition reaches the end of the function, which returns \<open>undefined\<close>.
\<close>

function fetch_loop ::
  "'n arithmetic \<Rightarrow> settings \<Rightarrow> (nat \<Rightarrow> transport_result) \<Rightarrow> int \<Rightarrow> nat \<Rightarrow> 'n \<Rightarrow> 'n retry_io
     \<Rightarrow> fetch_outcome \<times> 'n retry_io" where
  "fetch_loop ar st transport retries i delay io =
     (if int i < retries then
        (let io1 = io\<lparr>ui := ui io @ [StatusBar SetGenerating],
                      requests := requests io
                        @ [\<lparr> url = apiUrl st, bearer = apiKey st, streaming = False \<rparr>]\<rparr>
         in (case classify (transport (length (requests io))) of
               RateLimited \<Rightarrow>
                 fetch_loop ar st transport retries (i + 1) (times_2 ar delay)
                   (io1\<lparr>ui := ui io1 @ [NoticeRateLimit delay, SetText delay],
                        waits := waits io1 @ [delay]\<rparr>)
             | Succeeded r \<Rightarrow> (Returned r, io1\<lparr>ui := ui io1 @ [StatusBar SetSuccess]\<rparr>)
             | Failed e \<Rightarrow>
                 if int i = retries - 1 then
                   (Thrown e, io1\<lparr>ui := ui io1 @ [StatusBar (SetError (ustr ''API Failed''))]\<rparr>)
                 else
                   fetch_loop ar st transport retries (i + 1) (times_1_5 ar delay)
                     (io1\<lparr>waits := waits io1 @ [delay]\<rparr>)))
      else (ReturnedUndefined, io))"
  by pat_completeness auto
termination
  by (relation "measure (\<lambda>(ar, st, transport, retries, i, delay, io). nat (retries - int i))") auto

declare fetch_loop.simps [simp del]

text \<open>\<open>fetchWithRetry(requestBody, retries = 3, delay = 2000)\<close>.\<close>

definition fetchWithRetry ::
  "'n arithmetic \<Rightarrow> settings \<Rightarrow> (nat \<Rightarrow> transport_result) \<Rightarrow> int \<Rightarrow> 'n
     \<Rightarrow> fetch_outcome \<times> 'n retry_io" where
  "fetchWithRetry ar st transport retries delay =
     fetch_loop ar st transport retries 0 delay
       \<lparr> requests = [], waits = [], ui = [StatusBar SetConnecting] \<rparr>"

text \<open>
  \<open>fetchCredits()\<close>: \<open>null\<close> without a key; otherwise two requests in parallel, and
  \<open>null\<close> when either rejects or the reduction throws. The reduction of the two
  responses to the formatted minimum is floating point arithmetic and is a parameter
  (\<open>None\<close> when it throws).
\<close>

definition fetchCredits ::
  "settings \<Rightarrow> (request \<Rightarrow> transport_result) \<Rightarrow> (url_response \<Rightarrow> url_response \<Rightarrow> ustring option)
     \<Rightarrow> ustring option \<times> request list" where
  "fetchCredits st transport reduce =
     (if apiKey st = [] then (None, [])
      else
        (let creditsReq = \<lparr> url = ustr ''https://openrouter.ai/api/v1/credits'',
                             bearer = apiKey st, streaming = False \<rparr>;
             keyReq = \<lparr> url = ustr ''https://openrouter.ai/api/v1/auth/key'',
                         bearer = apiKey st, streaming = False \<rparr>
         in (case (transport creditsReq, transport keyReq) of
               (Responds creditsRes, Responds keyRes) \<Rightarrow> (reduce creditsRes keyRes, [creditsReq, keyReq])
             | _ \<Rightarrow> (None, [creditsReq, keyReq]))))"

section \<open>The single document in the words of the specification\<close>

text \<open>
  The first choice of a single document, and a field of its message (the empty string
  when the field is absent or empty).
\<close>

definition first_choice :: "json \<Rightarrow> json option" where
  "first_choice j = opt_first (opt_member (Some j) (ustr ''choices''))"

definition message_field :: "json \<Rightarrow> ustring \<Rightarrow> json" where
  "message_field choice name =
     or_empty (opt_member (opt_member (Some choice) (ustr ''message'')) name)"

text \<open>
  The text enclosed by the first think-tag pair of a content, by positions: the opening
  tag occurs at position \<open>i\<close> when the seven characters from \<open>i\<close> on are the tag; the
  pair is the first opening tag and the first closing tag that begins after it; the
  enclosed text lies between the two.
\<close>

definition occurs_at :: "ustring \<Rightarrow> ustring \<Rightarrow> nat \<Rightarrow> bool" where
  "occurs_at p s i = (take (length p) (drop i s) = p)"

definition first_occurrence :: "ustring \<Rightarrow> ustring \<Rightarrow> nat option" where
  "first_occurrence p s = find (occurs_at p s) [0..<Suc (length s)]"

definition enclosed_think :: "ustring \<Rightarrow> ustring option" where
  "enclosed_think content =
     (case first_occurrence (ustr ''<think>'') content of
        None \<Rightarrow> None
      | Some i \<Rightarrow>
          (case first_occurrence (ustr ''</think>'') (drop (i + 7) content) of
             None \<Rightarrow> None
           | Some n \<Rightarrow> Some (take n (drop (i + 7) content))))"

text \<open>
  The reasoning found in a single document: the reasoning field when it is present and
  not empty, otherwise the text enclosed by the first think-tag pair of the content.
\<close>

definition found_reasoning :: "json \<Rightarrow> ustring \<Rightarrow> json option" where
  "found_reasoning reasoning content =
     (if truthy reasoning then Some reasoning
      else (case enclosed_think content of None \<Rightarrow> None | Some inner \<Rightarrow> Some (JStr inner)))"

section \<open>The frame decoder in the words of the specification\<close>

text \<open>
  The body reader that delivers the given chunks and then goes on as \<open>ending\<close> (the end
  of the body, or a rejection).
\<close>

definition reader_of :: "8 word list list \<Rightarrow> body_reader \<Rightarrow> body_reader" where
  "reader_of chunks ending = foldr Chunk chunks ending"

text \<open>
  A line of an event stream is white space, then a text that is empty or begins and ends
  with a character that is not white space, then white space. A data line is one whose
  text is the marker \<open>data: \<close> followed by a payload; every other line is of no concern
  to the decoder. The constructors hold the leading white space, the payload or the
  text, and the trailing white space.
\<close>

datatype body_line =
    DataLine ustring ustring ustring
  | OtherLine ustring ustring ustring

fun line_text :: "body_line \<Rightarrow> ustring" where
  "line_text (DataLine lead payload trail) = lead @ ustr ''data: '' @ payload @ trail"
| "line_text (OtherLine lead text trail) = lead @ text @ trail"

definition blank :: "ustring \<Rightarrow> bool" where
  "blank s = list_all js_whitespace s"

fun well_formed :: "body_line \<Rightarrow> bool" where
  "well_formed (DataLine lead payload trail) =
     (blank lead \<and> blank trail \<and> payload \<noteq> [] \<and> \<not> js_whitespace (last payload)
      \<and> 0xA \<notin> set (lead @ payload @ trail))"
| "well_formed (OtherLine lead text trail) =
     (blank lead \<and> blank trail
      \<and> (text = [] \<or> (\<not> js_whitespace (hd text) \<and> \<not> js_whitespace (last text)))
      \<and> take 6 text \<noteq> ustr ''data: ''
      \<and> 0xA \<notin> set (lead @ text @ trail))"

text \<open>
  A field of the delta of the first choice of an event, when it is present and not empty.
\<close>

definition delta_field :: "json \<Rightarrow> ustring \<Rightarrow> json option" where
  "delta_field data name =
     (case opt_member (opt_member (first_choice data) (ustr ''delta'')) name of
        None \<Rightarrow> None
      | Some v \<Rightarrow> if truthy v then Some v else None)"

text \<open>
  An event can be read when it is not \<open>null\<close> and its text content, if it has one, can be
  turned into a string.
\<close>

definition readable :: "json \<Rightarrow> bool" where
  "readable data =
     (data \<noteq> JNull
      \<and> (case delta_field data (ustr ''content'') of
           None \<Rightarrow> True
         | Some content \<Rightarrow> js_to_string content \<noteq> None))"

text \<open>
  The deltas one event carries: the text content and the reasoning of the first choice's
  delta, each if present and not empty, text first. The reasoning is delivered only to a
  caller that passed the callback.
\<close>

definition frame_deltas :: "bool \<Rightarrow> json \<Rightarrow> event list" where
  "frame_deltas onReasoning data =
     (case delta_field data (ustr ''content'') of
        None \<Rightarrow> []
      | Some content \<Rightarrow> [OnToken content])
     @ (case delta_field data (ustr ''reasoning'') of
          None \<Rightarrow> []
        | Some reasoning \<Rightarrow> if onReasoning then [OnReasoning reasoning] else [])"

text \<open>The text a delta adds to the accumulated string.\<close>

fun delta_text :: "event \<Rightarrow> ustring" where
  "delta_text (OnToken v) = (case js_to_string v of None \<Rightarrow> [] | Some text \<Rightarrow> text)"
| "delta_text e = []"



text \<open>The terminal callbacks.\<close>

fun is_terminal :: "event \<Rightarrow> bool" where
  "is_terminal (OnComplete t) = True"
| "is_terminal (OnError e) = True"
| "is_terminal e = False"

section \<open>The retry policy in the words of the specification\<close>

text \<open>
  How an attempt fails, by what the transport delivers: a response with status 429 is a
  rate limit; a rejected request, a response with a status of 400 or more, and a response
  whose body is not JSON or whose first choice has a message content that is neither a
  string nor absent or empty, are other failures. Every other response is a success.
\<close>

datatype failure = RateLimit | OtherFailure

definition textual :: "url_response \<Rightarrow> bool" where
  "textual r =
     (case url_json r of
        None \<Rightarrow> False
      | Some j \<Rightarrow>
          (case first_choice j of
             None \<Rightarrow> True
           | Some choice \<Rightarrow>
               (case message_field choice (ustr ''content'') of JStr c \<Rightarrow> True | _ \<Rightarrow> False)))"

fun failure_of :: "transport_result \<Rightarrow> failure option" where
  "failure_of (Rejects e) = Some OtherFailure"
| "failure_of (Responds r) =
     (if url_status r = 429 then Some RateLimit
      else if 400 \<le> url_status r \<or> \<not> textual r then Some OtherFailure
      else None)"

text \<open>
  The delays of the policy, for a run of failed attempts: each waits the delay in force; a
  rate limit doubles it, any other failure multiplies it by 1.5.
\<close>

fun backoff_delays :: "'n arithmetic \<Rightarrow> 'n \<Rightarrow> failure list \<Rightarrow> 'n list" where
  "backoff_delays ar d [] = []"
| "backoff_delays ar d (RateLimit # rest) = d # backoff_delays ar (times_2 ar d) rest"
| "backoff_delays ar d (OtherFailure # rest) = d # backoff_delays ar (times_1_5 ar d) rest"

text \<open>The delay in force after a run of failed attempts.\<close>

fun delay_after :: "'n arithmetic \<Rightarrow> 'n \<Rightarrow> failure list \<Rightarrow> 'n" where
  "delay_after ar d [] = d"
| "delay_after ar d (RateLimit # rest) = delay_after ar (times_2 ar d) rest"
| "delay_after ar d (OtherFailure # rest) = delay_after ar (times_1_5 ar d) rest"

section \<open>Scenarios\<close>

text \<open>A provider with a key configured.\<close>

definition keyed_settings :: settings where
  "keyed_settings = DEFAULT_SETTINGS\<lparr>apiKey := ustr ''sk-or-v1-0123''\<rparr>"

text \<open>
  The body \<open>{"choices":[{"message":{"content":c}}]}\<close> of a completion, as the value
  the \<open>json\<close> getter gives, the body
  \<open>{"choices":[{"message":{"content":"Hello","reasoning":"why"}}]}\<close>, and the body
  \<open>{"choices":[{"message":{"content":5}}]}\<close>.
\<close>

definition completion_json :: "ustring \<Rightarrow> json" where
  "completion_json c =
     JObj [(ustr ''choices'', JArr [JObj [(ustr ''message'', JObj [(ustr ''content'', JStr c)])]])]"

definition number_json :: json where
  "number_json =
     JObj [(ustr ''choices'',
            JArr [JObj [(ustr ''message'', JObj [(ustr ''content'', JNum (ustr ''5''))])]])]"

definition reasoned_json :: json where
  "reasoned_json =
     JObj [(ustr ''choices'',
            JArr [JObj [(ustr ''message'',
                         JObj [(ustr ''content'', JStr (ustr ''Hello'')),
                               (ustr ''reasoning'', JStr (ustr ''why''))])]])]"

text \<open>
  The transport of the retry scenario: status 429 for the first two requests, then
  status 200 with a completion. The second transport fails its first request with
  status 500 instead. The third answers the third request with status 200 and a body that
  is not JSON.
\<close>

definition rate_limited_twice :: "nat \<Rightarrow> transport_result" where
  "rate_limited_twice n =
     (if n < 2 then Responds \<lparr> url_status = 429, url_json = None \<rparr>
      else Responds \<lparr> url_status = 200,
                      url_json = Some (completion_json (ustr ''<think>hm</think> Hello'')) \<rparr>)"

definition failing_then_limited :: "nat \<Rightarrow> transport_result" where
  "failing_then_limited n =
     (if n = 0 then Responds \<lparr> url_status = 500, url_json = None \<rparr>
      else if n = 1 then Responds \<lparr> url_status = 429, url_json = None \<rparr>
      else Responds \<lparr> url_status = 200, url_json = Some (completion_json (ustr ''Hello'')) \<rparr>)"

definition limited_then_unreadable :: "nat \<Rightarrow> transport_result" where
  "limited_then_unreadable n =
     (if n < 2 then Responds \<lparr> url_status = 429, url_json = None \<rparr>
      else Responds \<lparr> url_status = 200, url_json = None \<rparr>)"

text \<open>Transports that answer every request with the same status and no JSON body.\<close>

definition always_status :: "int \<Rightarrow> nat \<Rightarrow> transport_result" where
  "always_status code n = Responds \<lparr> url_status = code, url_json = None \<rparr>"

text \<open>Bytes of an ASCII text.\<close>

definition ascii_bytes :: "string \<Rightarrow> 8 word list" where
  "ascii_bytes s = map of_char s"

text \<open>
  A response with status 200 whose content type declares JSON and whose body parses to
  the given value, and one whose content type is that of an event stream, with the given
  body reader.
\<close>

definition json_response :: "json \<Rightarrow> response" where
  "json_response j =
     \<lparr> ok = True, status = 200, statusText = ustr ''OK'', has_body = True,
       content_type = Some (ustr ''application/json; charset=utf-8''),
       json_result = Inr j, body = Done \<rparr>"










text \<open>A platform whose \<open>fetch\<close> resolves with the given response, and a parser that rejects
  every text.\<close>

definition fetch_always :: "response \<Rightarrow> request \<Rightarrow> fetch_result" where
  "fetch_always r req = FetchResolved r"

definition parse_nothing :: "ustring \<Rightarrow> json option" where
  "parse_nothing s = None"

section \<open>Favorites and model preferences\<close>

lemma distinct_addFavorite:
  "distinct (favoriteModels st) \<Longrightarrow> distinct (favoriteModels (addFavorite st m c))"
  by (simp add: addFavorite_def Let_def)

lemma distinct_removeFavorite:
  "distinct (favoriteModels st) \<Longrightarrow> distinct (favoriteModels (removeFavorite st m))"
  by (simp add: removeFavorite_def)

lemma distinct_apply_favorite_ops:
  "distinct (favoriteModels st) \<Longrightarrow> distinct (favoriteModels (apply_favorite_ops st ops))"
  unfolding apply_favorite_ops_def
proof (induction ops arbitrary: st)
  case Nil
  then show ?case by simp
next
  case (Cons x xs)
  have "distinct (favoriteModels (apply_favorite_op st x))"
    using Cons.prems by (cases x) (simp_all add: distinct_addFavorite distinct_removeFavorite)
  then show ?case using Cons.IH by simp
qed

lemma distinct_default_favorites: "distinct (favoriteModels DEFAULT_SETTINGS)"
  by (simp add: DEFAULT_SETTINGS_def ustr_def)

lemma count_list_distinct_member:
  "distinct xs \<Longrightarrow> x \<in> set xs \<Longrightarrow> count_list xs x = 1"
  by (induction xs) auto

text \<open>
  Claim C8. The favorites list never contains duplicates after any sequence of
  \<open>addFavorite\<close> and \<open>removeFavorite\<close>: the two operations keep a list without duplicates
  free of duplicates, and the default list has none. Adding the same id twice in
  succession leaves it in the list exactly once, whatever the context lengths passed.
  Removing an id that is absent changes nothing, so the order of the entries stays.
\<close>

theorem favorites_no_duplicates:
  assumes "distinct (favoriteModels st)"
  shows "distinct (favoriteModels (apply_favorite_ops st ops))
       \<and> distinct (favoriteModels (apply_favorite_ops DEFAULT_SETTINGS ops))
       \<and> count_list (favoriteModels (addFavorite (addFavorite st m c1) m c2)) m = 1
       \<and> (m \<notin> set (favoriteModels st) \<longrightarrow> removeFavorite st m = st)"
proof -
  have d2: "distinct (favoriteModels (addFavorite (addFavorite st m c1) m c2))"
    using assms by (simp add: distinct_addFavorite)
  have "m \<in> set (favoriteModels (addFavorite (addFavorite st m c1) m c2))"
    by (simp add: addFavorite_def Let_def)
  with d2 have c: "count_list (favoriteModels (addFavorite (addFavorite st m c1) m c2)) m = 1"
    by (rule count_list_distinct_member)
  have r: "m \<notin> set (favoriteModels st) \<longrightarrow> removeFavorite st m = st"
  proof
    assume "m \<notin> set (favoriteModels st)"
    then have "filter (\<lambda>x. x \<noteq> m) (favoriteModels st) = favoriteModels st"
      by (auto simp: filter_id_conv)
    then show "removeFavorite st m = st"
      by (simp add: removeFavorite_def)
  qed
  show ?thesis
    using assms c r distinct_apply_favorite_ops distinct_default_favorites by blast
qed

theorem favorites_no_duplicates_witness:
  "distinct (favoriteModels DEFAULT_SETTINGS)
   \<and> favoriteModels (addFavorite (addFavorite DEFAULT_SETTINGS (ustr ''openai/gpt-4o'') (Some 128000))
        (ustr ''openai/gpt-4o'') None)
     = favoriteModels DEFAULT_SETTINGS @ [ustr ''openai/gpt-4o'']
   \<and> count_list (favoriteModels (addFavorite (addFavorite DEFAULT_SETTINGS (ustr ''openai/gpt-4o'') (Some 128000))
        (ustr ''openai/gpt-4o'') None)) (ustr ''openai/gpt-4o'') = 1
   \<and> ustr ''openai/gpt-4o'' \<notin> set (favoriteModels DEFAULT_SETTINGS)
   \<and> removeFavorite DEFAULT_SETTINGS (ustr ''openai/gpt-4o'') = DEFAULT_SETTINGS"
proof -
  have h: "distinct (favoriteModels DEFAULT_SETTINGS)"
    by (simp add: DEFAULT_SETTINGS_def ustr_def)
  have a: "ustr ''openai/gpt-4o'' \<notin> set (favoriteModels DEFAULT_SETTINGS)"
    by (simp add: DEFAULT_SETTINGS_def ustr_def)
  have e: "favoriteModels (addFavorite (addFavorite DEFAULT_SETTINGS (ustr ''openai/gpt-4o'') (Some 128000))
        (ustr ''openai/gpt-4o'') None)
     = favoriteModels DEFAULT_SETTINGS @ [ustr ''openai/gpt-4o'']"
    using a by (simp add: addFavorite_def Let_def)
  show ?thesis
    using h a e favorites_no_duplicates [OF h, of "[]" "ustr ''openai/gpt-4o''" "Some 128000" None]
    by simp
qed

text \<open>
  Claim C9, as stated: for every caller and every model identifier, \<open>setModel\<close> followed
  by \<open>getModel\<close> returns the identifier. It fails for the empty identifier, which
  \<open>getModel\<close> takes for no selection: it returns the first favorite instead.
\<close>

theorem setModel_getModel_empty_counterexample:
  "getModel (setModel DEFAULT_SETTINGS (ustr ''ai-flashcards'') []) (ustr ''ai-flashcards'')
     \<noteq> ModelId []"
  by (simp add: getModel_def setModel_def obj_get_def obj_set_def DEFAULT_SETTINGS_def
      first_favorite_or_default_def ustr_def)

text \<open>
  Claim C9, amended: for every caller identifier other than \<open>__proto__\<close> and every
  model identifier that is not empty, \<open>setModel(caller, modelId)\<close> followed by
  \<open>getModel(caller)\<close> returns \<open>modelId\<close>.
\<close>

theorem setModel_getModel_roundtrip:
  assumes "modelId \<noteq> []" and "pluginId \<noteq> ustr ''__proto__''"
  shows "getModel (setModel st pluginId modelId) pluginId = ModelId modelId"
  using assms by (simp add: getModel_def setModel_def obj_get_def obj_set_def)

theorem setModel_getModel_roundtrip_witness:
  "ustr ''openai/gpt-4o-mini'' \<noteq> [] \<and> ustr ''ai-flashcards'' \<noteq> ustr ''__proto__''
   \<and> getModel (setModel DEFAULT_SETTINGS (ustr ''ai-flashcards'') (ustr ''openai/gpt-4o-mini''))
        (ustr ''ai-flashcards'') = ModelId (ustr ''openai/gpt-4o-mini'')"
proof -
  have a: "ustr ''openai/gpt-4o-mini'' \<noteq> []" by (simp add: ustr_def)
  have b: "ustr ''ai-flashcards'' \<noteq> ustr ''__proto__''" by (simp add: ustr_def)
  show ?thesis using a b setModel_getModel_roundtrip [OF a b, of DEFAULT_SETTINGS] by simp
qed

text \<open>
  The key \<open>__proto__\<close> is left out above: the assignment of a string to it is
  ignored, and reading it gives the prototype object, whatever was assigned. For an empty
  identifier \<open>getModel\<close> gives the first favorite, or the built-in default.
\<close>

lemma setModel_getModel_proto:
  "getModel (setModel st (ustr ''__proto__'') modelId) (ustr ''__proto__'')
     = PrototypeMember (ustr ''__proto__'')"
  by (simp add: getModel_def setModel_def obj_get_def obj_set_def)

lemma setModel_getModel_empty:
  "pluginId \<noteq> ustr ''__proto__'' \<Longrightarrow>
   getModel (setModel st pluginId []) pluginId = ModelId (first_favorite_or_default st)"
  by (simp add: getModel_def setModel_def obj_get_def obj_set_def first_favorite_or_default_def)

section \<open>The retry controller\<close>

lemma fetch_loop_exit:
  "\<not> int i < retries \<Longrightarrow> fetch_loop ar st transport retries i d io = (ReturnedUndefined, io)"
  by (rule trans [OF fetch_loop.simps]) simp

lemma fetch_loop_rate_limited:
  "int i < retries \<Longrightarrow> classify (transport (length (requests io))) = RateLimited \<Longrightarrow>
   fetch_loop ar st transport retries i d io =
     fetch_loop ar st transport retries (i + 1) (times_2 ar d)
       (io\<lparr>requests := requests io @ [\<lparr> url = apiUrl st, bearer = apiKey st, streaming = False \<rparr>],
           waits := waits io @ [d],
           ui := ui io @ [StatusBar SetGenerating, NoticeRateLimit d, SetText d]\<rparr>)"
  by (rule trans [OF fetch_loop.simps], cases io) (simp add: Let_def)

lemma fetch_loop_failed:
  "int i < retries \<Longrightarrow> int i \<noteq> retries - 1 \<Longrightarrow>
   classify (transport (length (requests io))) = Failed e \<Longrightarrow>
   fetch_loop ar st transport retries i d io =
     fetch_loop ar st transport retries (i + 1) (times_1_5 ar d)
       (io\<lparr>requests := requests io @ [\<lparr> url = apiUrl st, bearer = apiKey st, streaming = False \<rparr>],
           waits := waits io @ [d],
           ui := ui io @ [StatusBar SetGenerating]\<rparr>)"
  by (rule trans [OF fetch_loop.simps], cases io) (simp add: Let_def)

lemma fetch_loop_failed_last:
  "int i < retries \<Longrightarrow> int i = retries - 1 \<Longrightarrow>
   classify (transport (length (requests io))) = Failed e \<Longrightarrow>
   fetch_loop ar st transport retries i d io =
     (Thrown e,
      io\<lparr>requests := requests io @ [\<lparr> url = apiUrl st, bearer = apiKey st, streaming = False \<rparr>],
         ui := ui io @ [StatusBar SetGenerating, StatusBar (SetError (ustr ''API Failed''))]\<rparr>)"
  by (rule trans [OF fetch_loop.simps], cases io) (simp add: Let_def)

lemma fetch_loop_succeeded:
  "int i < retries \<Longrightarrow> classify (transport (length (requests io))) = Succeeded r \<Longrightarrow>
   fetch_loop ar st transport retries i d io =
     (Returned r,
      io\<lparr>requests := requests io @ [\<lparr> url = apiUrl st, bearer = apiKey st, streaming = False \<rparr>],
         ui := ui io @ [StatusBar SetGenerating, StatusBar SetSuccess]\<rparr>)"
  by (rule trans [OF fetch_loop.simps], cases io) (simp add: Let_def)

text \<open>
  The failures of the policy are the attempts that the code does not return from: a
  response that is textual is cleaned and returned, any other is an error thrown inside
  the \<open>try\<close>.
\<close>

lemma response_content_first_choice:
  "response_content j = opt_member (opt_member (first_choice j) (ustr ''message'')) (ustr ''content'')"
  by (simp add: response_content_def first_choice_def)

lemma clean_think_textual:
  "textual r \<Longrightarrow> \<exists>r'. clean_think r = Inr r' \<and> url_status r' = url_status r"
  by (cases "url_json r"; cases "first_choice (the (url_json r))")
    (auto simp: textual_def clean_think_def response_content_first_choice message_field_def
      or_empty_def split: option.splits json.splits if_splits)

lemma clean_think_not_textual:
  "\<not> textual r \<Longrightarrow> \<exists>e. clean_think r = Inl e"
  by (cases "url_json r"; cases "first_choice (the (url_json r))")
    (auto simp: textual_def clean_think_def response_content_first_choice message_field_def
      or_empty_def split: option.splits json.splits if_splits)

lemma classify_rate_limit: "failure_of t = Some RateLimit \<Longrightarrow> classify t = RateLimited"
  by (cases t) (auto simp: classify_def split: if_splits)

lemma classify_other_failure: "failure_of t = Some OtherFailure \<Longrightarrow> \<exists>e. classify t = Failed e"
proof (cases t)
  case (Rejects e)
  then show ?thesis by (simp add: classify_def)
next
  case (Responds r)
  assume f: "failure_of t = Some OtherFailure"
  show ?thesis
  proof (cases "400 \<le> url_status r")
    case True
    then show ?thesis using f Responds by (auto simp: classify_def split: if_splits)
  next
    case False
    then have "\<not> textual r" using f Responds by (auto split: if_splits)
    then obtain e where "clean_think r = Inl e" using clean_think_not_textual by blast
    then show ?thesis using f Responds False by (auto simp: classify_def split: if_splits)
  qed
qed

lemma classify_success:
  assumes "failure_of (Responds r) = None"
  shows "\<exists>r'. classify (Responds r) = Succeeded r' \<and> url_status r' = url_status r"
proof -
  have s: "url_status r \<noteq> 429" "\<not> 400 \<le> url_status r" "textual r"
    using assms by (auto split: if_splits)
  then obtain r' where "clean_think r = Inr r'" "url_status r' = url_status r"
    using clean_think_textual by blast
  then show ?thesis using s by (simp add: classify_def)
qed

lemma classify_error_status:
  "400 \<le> url_status r \<Longrightarrow> url_status r \<noteq> 429 \<Longrightarrow> classify (Responds r) = Failed (api_error_of r)"
  by (simp add: classify_def)

lemma classify_rejected: "classify (Rejects e) = Failed e"
  by (simp add: classify_def)

lemma fetch_loop_prefix:
  assumes "\<forall>j < length fs. failure_of (transport (length (requests io) + j)) = Some (fs ! j)"
    and "int (i + length fs) \<le> retries"
    and "\<forall>j < length fs. int (i + j) = retries - 1 \<longrightarrow> fs ! j = RateLimit"
  shows "\<exists>io'. fetch_loop ar st transport retries i d io
                 = fetch_loop ar st transport retries (i + length fs) (delay_after ar d fs) io'
             \<and> length (requests io') = length (requests io) + length fs
             \<and> set (requests io') \<subseteq> set (requests io) \<union> {\<lparr> url = apiUrl st, bearer = apiKey st, streaming = False \<rparr>}
             \<and> waits io' = waits io @ backoff_delays ar d fs"
  using assms
proof (induction fs arbitrary: i d io)
  case Nil
  show ?case by (intro exI [of _ io]) auto
next
  case (Cons f fs)
  have f0: "failure_of (transport (length (requests io))) = Some f"
    using Cons.prems(1) by force
  have lt: "int i < retries" using Cons.prems(2) by simp
  have p3: "int (i + 1 + length fs) \<le> retries" using Cons.prems(2) by simp
  have p5: "\<forall>j < length fs. int (i + 1 + j) = retries - 1 \<longrightarrow> fs ! j = RateLimit"
    using Cons.prems(3) by force
  show ?case
  proof (cases f)
    case RateLimit
    let ?io2 = "io\<lparr>requests := requests io @ [\<lparr> url = apiUrl st, bearer = apiKey st, streaming = False \<rparr>],
           waits := waits io @ [d],
           ui := ui io @ [StatusBar SetGenerating, NoticeRateLimit d, SetText d]\<rparr>"
    have step: "fetch_loop ar st transport retries i d io
                  = fetch_loop ar st transport retries (i + 1) (times_2 ar d) ?io2"
      using f0 RateLimit lt by (simp add: fetch_loop_rate_limited classify_rate_limit)
    have p1: "\<forall>j < length fs. failure_of (transport (length (requests ?io2) + j)) = Some (fs ! j)"
      using Cons.prems(1) by force
    from Cons.IH [OF p1 p3 p5, of "times_2 ar d"] obtain io' where
      "fetch_loop ar st transport retries (i + 1) (times_2 ar d) ?io2
         = fetch_loop ar st transport retries (i + 1 + length fs) (delay_after ar (times_2 ar d) fs) io'"
      "length (requests io') = length (requests ?io2) + length fs"
      "set (requests io') \<subseteq> set (requests ?io2) \<union> {\<lparr> url = apiUrl st, bearer = apiKey st, streaming = False \<rparr>}"
      "waits io' = waits ?io2 @ backoff_delays ar (times_2 ar d) fs"
      by blast
    then show ?thesis using step RateLimit by (intro exI [of _ io']) auto
  next
    case OtherFailure
    have ne: "int i \<noteq> retries - 1"
      using Cons.prems(3) OtherFailure by force
    obtain e where e: "classify (transport (length (requests io))) = Failed e"
      using f0 OtherFailure classify_other_failure by blast
    let ?io2 = "io\<lparr>requests := requests io @ [\<lparr> url = apiUrl st, bearer = apiKey st, streaming = False \<rparr>],
           waits := waits io @ [d],
           ui := ui io @ [StatusBar SetGenerating]\<rparr>"
    have step: "fetch_loop ar st transport retries i d io
                  = fetch_loop ar st transport retries (i + 1) (times_1_5 ar d) ?io2"
      using e lt ne by (simp add: fetch_loop_failed)
    have p1: "\<forall>j < length fs. failure_of (transport (length (requests ?io2) + j)) = Some (fs ! j)"
      using Cons.prems(1) by force
    from Cons.IH [OF p1 p3 p5, of "times_1_5 ar d"] obtain io' where
      "fetch_loop ar st transport retries (i + 1) (times_1_5 ar d) ?io2
         = fetch_loop ar st transport retries (i + 1 + length fs) (delay_after ar (times_1_5 ar d) fs) io'"
      "length (requests io') = length (requests ?io2) + length fs"
      "set (requests io') \<subseteq> set (requests ?io2) \<union> {\<lparr> url = apiUrl st, bearer = apiKey st, streaming = False \<rparr>}"
      "waits io' = waits ?io2 @ backoff_delays ar (times_1_5 ar d) fs"
      by blast
    then show ?thesis using step OtherFailure by (intro exI [of _ io']) auto
  qed
qed

lemma fetchWithRetry_prefix:
  assumes "\<forall>j < length fs. failure_of (transport j) = Some (fs ! j)"
    and "int (length fs) \<le> retries"
    and "\<forall>j < length fs. int j = retries - 1 \<longrightarrow> fs ! j = RateLimit"
  shows "\<exists>io'. fetchWithRetry ar st transport retries d
                 = fetch_loop ar st transport retries (length fs) (delay_after ar d fs) io'
             \<and> length (requests io') = length fs
             \<and> waits io' = backoff_delays ar d fs"
proof -
  let ?io = "\<lparr> requests = [], waits = [], ui = [StatusBar SetConnecting] \<rparr> :: 'a retry_io"
  have p1: "\<forall>j < length fs. failure_of (transport (length (requests ?io) + j)) = Some (fs ! j)"
    using assms(1) by simp
  have p2: "int (0 + length fs) \<le> retries" using assms(2) by simp
  have p3: "\<forall>j < length fs. int (0 + j) = retries - 1 \<longrightarrow> fs ! j = RateLimit"
    using assms(3) by simp
  from fetch_loop_prefix [OF p1 p2 p3, of ar st d] obtain io' where
    "fetch_loop ar st transport retries 0 d ?io
          = fetch_loop ar st transport retries (0 + length fs) (delay_after ar d fs) io'"
    "length (requests io') = length (requests ?io) + length fs"
    "waits io' = waits ?io @ backoff_delays ar d fs"
    by blast
  then show ?thesis by (intro exI [of _ io']) (simp add: fetchWithRetry_def)
qed

lemma fetchWithRetry_success_after_failures:
  assumes "\<forall>j < length fs. failure_of (transport j) = Some (fs ! j)"
    and "int (length fs) < retries"
    and "transport (length fs) = Responds r" and "failure_of (Responds r) = None"
  shows "(\<exists>r'. fst (fetchWithRetry ar st transport retries d) = Returned r'
              \<and> url_status r' = url_status r)
       \<and> length (requests (snd (fetchWithRetry ar st transport retries d))) = length fs + 1
       \<and> waits (snd (fetchWithRetry ar st transport retries d)) = backoff_delays ar d fs"
proof -
  have p2: "int (length fs) \<le> retries" using assms(2) by simp
  have p3: "\<forall>j < length fs. int j = retries - 1 \<longrightarrow> fs ! j = RateLimit"
    using assms(2) by auto
  from fetchWithRetry_prefix [OF assms(1) p2 p3, of ar st d] obtain io' where
    e: "fetchWithRetry ar st transport retries d
          = fetch_loop ar st transport retries (length fs) (delay_after ar d fs) io'"
    and l: "length (requests io') = length fs"
    and w: "waits io' = backoff_delays ar d fs"
    by blast
  obtain r' where c: "classify (Responds r) = Succeeded r'" and s: "url_status r' = url_status r"
    using classify_success [OF assms(4)] by blast
  have "classify (transport (length (requests io'))) = Succeeded r'"
    using c l assms(3) by simp
  then have "fetch_loop ar st transport retries (length fs) (delay_after ar d fs) io'
          = (Returned r',
             io'\<lparr>requests := requests io' @ [\<lparr> url = apiUrl st, bearer = apiKey st, streaming = False \<rparr>],
                 ui := ui io' @ [StatusBar SetGenerating, StatusBar SetSuccess]\<rparr>)"
    using assms(2) by (simp add: fetch_loop_succeeded)
  then show ?thesis using e l w s by simp
qed

lemma fetchWithRetry_last_failure_thrown:
  assumes "\<forall>j < length fs. failure_of (transport j) = Some (fs ! j)"
    and "int (length fs) = retries - 1"
    and "failure_of (transport (length fs)) = Some OtherFailure"
  shows "(\<exists>e. fst (fetchWithRetry ar st transport retries d) = Thrown e)
       \<and> length (requests (snd (fetchWithRetry ar st transport retries d))) = length fs + 1
       \<and> waits (snd (fetchWithRetry ar st transport retries d)) = backoff_delays ar d fs"
proof -
  have p2: "int (length fs) \<le> retries" using assms(2) by simp
  have p3: "\<forall>j < length fs. int j = retries - 1 \<longrightarrow> fs ! j = RateLimit"
    using assms(2) by auto
  from fetchWithRetry_prefix [OF assms(1) p2 p3, of ar st d] obtain io' where
    e: "fetchWithRetry ar st transport retries d
          = fetch_loop ar st transport retries (length fs) (delay_after ar d fs) io'"
    and l: "length (requests io') = length fs"
    and w: "waits io' = backoff_delays ar d fs"
    by blast
  obtain err where "classify (transport (length fs)) = Failed err"
    using classify_other_failure [OF assms(3)] by blast
  then have "classify (transport (length (requests io'))) = Failed err"
    using l by simp
  then have "fetch_loop ar st transport retries (length fs) (delay_after ar d fs) io'
          = (Thrown err,
             io'\<lparr>requests := requests io' @ [\<lparr> url = apiUrl st, bearer = apiKey st, streaming = False \<rparr>],
                 ui := ui io' @ [StatusBar SetGenerating, StatusBar (SetError (ustr ''API Failed''))]\<rparr>)"
    using assms(2) by (simp add: fetch_loop_failed_last)
  then show ?thesis using e l w by simp
qed

lemma fetchWithRetry_last_rate_limit_undefined:
  assumes "\<forall>j < length fs. failure_of (transport j) = Some (fs ! j)"
    and "int (length fs) = retries - 1"
    and "failure_of (transport (length fs)) = Some RateLimit"
  shows "fst (fetchWithRetry ar st transport retries d) = ReturnedUndefined
       \<and> length (requests (snd (fetchWithRetry ar st transport retries d))) = length fs + 1
       \<and> waits (snd (fetchWithRetry ar st transport retries d)) = backoff_delays ar d (fs @ [RateLimit])"
proof -
  let ?fs = "fs @ [RateLimit]"
  have p1: "\<forall>j < length ?fs. failure_of (transport j) = Some (?fs ! j)"
    using assms(1,3) by (auto simp: nth_append less_Suc_eq)
  have p2: "int (length ?fs) \<le> retries" using assms(2) by simp
  have p3: "\<forall>j < length ?fs. int j = retries - 1 \<longrightarrow> ?fs ! j = RateLimit"
    using assms(2) by (auto simp: nth_append)
  from fetchWithRetry_prefix [OF p1 p2 p3, of ar st d] obtain io' where
    e: "fetchWithRetry ar st transport retries d
          = fetch_loop ar st transport retries (length ?fs) (delay_after ar d ?fs) io'"
    and l: "length (requests io') = length ?fs"
    and w: "waits io' = backoff_delays ar d ?fs"
    by blast
  have "fetch_loop ar st transport retries (length ?fs) (delay_after ar d ?fs) io'
          = (ReturnedUndefined, io')"
    using assms(2) by (simp add: fetch_loop_exit)
  then show ?thesis using e l w by simp
qed

lemma clean_think_example:
  "clean_think \<lparr> url_status = 200, url_json = Some (completion_json (ustr ''<think>hm</think> Hello'')) \<rparr>
     = Inr \<lparr> url_status = 200, url_json = Some (completion_json (ustr ''Hello'')) \<rparr>"
  by (simp add: clean_think_def response_content_def completion_json_def put_content_def
      put_message_content_def strip_think_def trim_def js_whitespace_def ustr_def
      eq_ignore_case_def ascii_upper_def)

lemma clean_think_plain:
  "clean_think \<lparr> url_status = 200, url_json = Some (completion_json (ustr ''Hello'')) \<rparr>
     = Inr \<lparr> url_status = 200, url_json = Some (completion_json (ustr ''Hello'')) \<rparr>"
  by (simp add: clean_think_def response_content_def completion_json_def put_content_def
      put_message_content_def strip_think_def trim_def js_whitespace_def ustr_def
      eq_ignore_case_def ascii_upper_def)

lemma textual_completion: "textual \<lparr> url_status = code, url_json = Some (completion_json c) \<rparr>"
  by (simp add: textual_def first_choice_def completion_json_def message_field_def or_empty_def
      ustr_def)

text \<open>
  Claim C4, as stated: with three attempts allowed, a transport that answers 429 to the
  first two requests and 200 to the third makes the call succeed. It fails when the
  response with status 200 has a body that is not JSON: the \<open>json\<close> getter throws while
  the content is looked up for cleaning, the attempt is the last one, and the error is
  thrown to the caller, after three requests and the waits of 2000 and 4000 milliseconds.
\<close>

theorem unreadable_success_counterexample:
  "limited_then_unreadable 0 = Responds \<lparr> url_status = 429, url_json = None \<rparr>
   \<and> limited_then_unreadable 1 = Responds \<lparr> url_status = 429, url_json = None \<rparr>
   \<and> limited_then_unreadable 2 = Responds \<lparr> url_status = 200, url_json = None \<rparr>
   \<and> fst (fetchWithRetry exact keyed_settings limited_then_unreadable 3 2000) = Thrown SyntaxError
   \<and> length (requests (snd (fetchWithRetry exact keyed_settings limited_then_unreadable 3 2000))) = 3
   \<and> waits (snd (fetchWithRetry exact keyed_settings limited_then_unreadable 3 2000)) = [2000, 4000]"
  by (simp add: fetchWithRetry_def fetch_loop.simps limited_then_unreadable_def classify_def
      clean_think_def exact_def Let_def)

text \<open>
  Claim C4, amended. With three attempts allowed, a transport that answers 429 to the
  first two requests and, to the third, 200 with a JSON body whose first choice has a
  message content that is a string (or absent or empty) makes the call return a response
  with status 200 after exactly three requests, having waited the initial delay and then
  its double. In general, when the attempts before the first success are failures, and
  fewer than the attempts allowed, the call returns a response with the status of the
  success, has sent one request per attempt, and has waited the delays of the policy:
  each failed attempt waits the delay in force, a rate limit doubles it and any other
  failure multiplies it by 1.5. The products are those of the platform's arithmetic.
\<close>

theorem retry_backoff_policy:
  "(transport 0 = Responds ra \<and> url_status ra = 429
      \<and> transport 1 = Responds rb \<and> url_status rb = 429
      \<and> transport 2 = Responds rc \<and> url_status rc = 200 \<and> textual rc
    \<longrightarrow> (\<exists>rd. fst (fetchWithRetry ar st transport 3 d) = Returned rd \<and> url_status rd = 200)
        \<and> length (requests (snd (fetchWithRetry ar st transport 3 d))) = 3
        \<and> waits (snd (fetchWithRetry ar st transport 3 d)) = [d, times_2 ar d])
   \<and> ((\<forall>j < length fs. failure_of (transport' j) = Some (fs ! j))
        \<and> int (length fs) < retries
        \<and> transport' (length fs) = Responds r \<and> failure_of (Responds r) = None
    \<longrightarrow> (\<exists>r'. fst (fetchWithRetry ar st transport' retries d) = Returned r'
               \<and> url_status r' = url_status r)
        \<and> length (requests (snd (fetchWithRetry ar st transport' retries d))) = length fs + 1
        \<and> waits (snd (fetchWithRetry ar st transport' retries d)) = backoff_delays ar d fs)"
proof (intro conjI impI)
  assume a: "transport 0 = Responds ra \<and> url_status ra = 429
      \<and> transport 1 = Responds rb \<and> url_status rb = 429
      \<and> transport 2 = Responds rc \<and> url_status rc = 200 \<and> textual rc"
  let ?fs = "[RateLimit, RateLimit]"
  have p1: "\<forall>j < length ?fs. failure_of (transport j) = Some (?fs ! j)"
    using a by (auto simp: less_Suc_eq)
  have p2: "int (length ?fs) < 3" by simp
  have p3: "transport (length ?fs) = Responds rc"
    using a by (simp add: numeral_2_eq_2)
  have p4: "failure_of (Responds rc) = None"
    using a by simp
  have r: "(\<exists>r'. fst (fetchWithRetry ar st transport 3 d) = Returned r'
              \<and> url_status r' = url_status rc)
       \<and> length (requests (snd (fetchWithRetry ar st transport 3 d))) = length ?fs + 1
       \<and> waits (snd (fetchWithRetry ar st transport 3 d)) = backoff_delays ar d ?fs"
    by (rule fetchWithRetry_success_after_failures [OF p1 p2 p3 p4])
  show "\<exists>rd. fst (fetchWithRetry ar st transport 3 d) = Returned rd \<and> url_status rd = 200"
    using r a by simp
  show "length (requests (snd (fetchWithRetry ar st transport 3 d))) = 3" using r by simp
  show "waits (snd (fetchWithRetry ar st transport 3 d)) = [d, times_2 ar d]" using r by simp
next
  assume b: "(\<forall>j < length fs. failure_of (transport' j) = Some (fs ! j))
        \<and> int (length fs) < retries
        \<and> transport' (length fs) = Responds r \<and> failure_of (Responds r) = None"
  have r: "(\<exists>r'. fst (fetchWithRetry ar st transport' retries d) = Returned r'
              \<and> url_status r' = url_status r)
       \<and> length (requests (snd (fetchWithRetry ar st transport' retries d))) = length fs + 1
       \<and> waits (snd (fetchWithRetry ar st transport' retries d)) = backoff_delays ar d fs"
    using b by (intro fetchWithRetry_success_after_failures) auto
  show "\<exists>r'. fst (fetchWithRetry ar st transport' retries d) = Returned r'
               \<and> url_status r' = url_status r"
    using r by simp
  show "length (requests (snd (fetchWithRetry ar st transport' retries d))) = length fs + 1"
    using r by simp
  show "waits (snd (fetchWithRetry ar st transport' retries d)) = backoff_delays ar d fs"
    using r by simp
qed

theorem retry_backoff_policy_witness:
  "rate_limited_twice 0 = Responds \<lparr> url_status = 429, url_json = None \<rparr>
   \<and> rate_limited_twice 1 = Responds \<lparr> url_status = 429, url_json = None \<rparr>
   \<and> rate_limited_twice 2
       = Responds \<lparr> url_status = 200, url_json = Some (completion_json (ustr ''<think>hm</think> Hello'')) \<rparr>
   \<and> textual \<lparr> url_status = 200, url_json = Some (completion_json (ustr ''<think>hm</think> Hello'')) \<rparr>
   \<and> fst (fetchWithRetry exact keyed_settings rate_limited_twice 3 2000)
       = Returned \<lparr> url_status = 200, url_json = Some (completion_json (ustr ''Hello'')) \<rparr>
   \<and> length (requests (snd (fetchWithRetry exact keyed_settings rate_limited_twice 3 2000))) = 3
   \<and> waits (snd (fetchWithRetry exact keyed_settings rate_limited_twice 3 2000)) = [2000, 4000]
   \<and> failure_of (failing_then_limited 0) = Some OtherFailure
   \<and> failure_of (failing_then_limited 1) = Some RateLimit
   \<and> failing_then_limited 2
       = Responds \<lparr> url_status = 200, url_json = Some (completion_json (ustr ''Hello'')) \<rparr>
   \<and> failure_of (failing_then_limited 2) = None
   \<and> fst (fetchWithRetry exact keyed_settings failing_then_limited 3 2000)
       = Returned \<lparr> url_status = 200, url_json = Some (completion_json (ustr ''Hello'')) \<rparr>
   \<and> length (requests (snd (fetchWithRetry exact keyed_settings failing_then_limited 3 2000))) = 3
   \<and> waits (snd (fetchWithRetry exact keyed_settings failing_then_limited 3 2000)) = [2000, 3000]"
proof -
  let ?r429 = "\<lparr> url_status = 429, url_json = None \<rparr>"
  let ?r200 = "\<lparr> url_status = 200, url_json = Some (completion_json (ustr ''<think>hm</think> Hello'')) \<rparr>"
  let ?ok = "\<lparr> url_status = 200, url_json = Some (completion_json (ustr ''Hello'')) \<rparr>"
  let ?fs = "[OtherFailure, RateLimit]"
  have h1: "rate_limited_twice 0 = Responds ?r429 \<and> url_status ?r429 = 429
      \<and> rate_limited_twice 1 = Responds ?r429 \<and> url_status ?r429 = 429
      \<and> rate_limited_twice 2 = Responds ?r200 \<and> url_status ?r200 = 200 \<and> textual ?r200"
    by (simp add: rate_limited_twice_def textual_completion)
  have c0: "failure_of (failing_then_limited 0) = Some OtherFailure"
    by (simp add: failing_then_limited_def)
  have c1: "failure_of (failing_then_limited (Suc 0)) = Some RateLimit"
    by (simp add: failing_then_limited_def)
  have c2: "failing_then_limited (Suc (Suc 0)) = Responds ?ok"
    by (simp add: failing_then_limited_def)
  have c3: "failure_of (Responds ?ok) = None"
    by (simp add: textual_completion)
  have h2: "(\<forall>j < length ?fs. failure_of (failing_then_limited j) = Some (?fs ! j))
        \<and> int (length ?fs) < 3
        \<and> failing_then_limited (length ?fs) = Responds ?ok \<and> failure_of (Responds ?ok) = None"
    using c0 c1 c2 c3 by (simp add: less_Suc_eq)
  have v1: "fst (fetchWithRetry exact keyed_settings rate_limited_twice 3 2000) = Returned ?ok"
    by (simp add: fetchWithRetry_def fetch_loop.simps rate_limited_twice_def classify_def
        clean_think_example Let_def exact_def)
  have v2: "fst (fetchWithRetry exact keyed_settings failing_then_limited 3 2000) = Returned ?ok"
    by (simp add: fetchWithRetry_def fetch_loop.simps failing_then_limited_def classify_def
        clean_think_plain Let_def exact_def)
  have w: "backoff_delays exact 2000 ?fs = [2000, 3000]" "times_2 exact 2000 = 4000"
    by (simp_all add: exact_def)
  show ?thesis
    using h1 h2 w c0 c1 c2 c3 v1 v2
      retry_backoff_policy [where transport = rate_limited_twice and ra = ?r429 and rb = ?r429
        and rc = ?r200 and st = keyed_settings and d = 2000 and ar = exact
        and transport' = failing_then_limited and fs = ?fs and retries = 3 and r = ?ok]
    by (simp add: numeral_2_eq_2)
qed

text \<open>
  Claim C5 says that a last attempt that fails, by a status 429 as well, ends in the error
  being thrown. A failure thrown inside the \<open>try\<close> is rethrown on the last attempt
  (\<open>fetchWithRetry_last_failure_thrown\<close>), but the branch for status 429 continues the
  loop without looking at the attempt index: with three attempts and a transport that
  always answers 429 the call waits three times, each time twice as long, and returns
  \<open>undefined\<close>; from 2000 milliseconds the waits are 2000, 4000 and 8000.
\<close>

theorem fetchWithRetry_rate_limit_on_last_attempt:
  "fst (fetchWithRetry exact keyed_settings (always_status 429) 3 2000) = ReturnedUndefined
   \<and> length (requests (snd (fetchWithRetry exact keyed_settings (always_status 429) 3 2000))) = 3
   \<and> waits (snd (fetchWithRetry exact keyed_settings (always_status 429) 3 2000)) = [2000, 4000, 8000]
   \<and> fst (fetchWithRetry ar keyed_settings (always_status 429) 3 d) = ReturnedUndefined
   \<and> length (requests (snd (fetchWithRetry ar keyed_settings (always_status 429) 3 d))) = 3
   \<and> waits (snd (fetchWithRetry ar keyed_settings (always_status 429) 3 d))
       = [d, times_2 ar d, times_2 ar (times_2 ar d)]"
  by (simp add: fetchWithRetry_def fetch_loop.simps always_status_def classify_def Let_def
      exact_def)

lemma streamRequest_without_key:
  "apiKey st = [] \<Longrightarrow>
   streamRequest st fetch parse model = \<lparr> sent = [], shown = [NoticeKeyMissing], callbacks = [] \<rparr>"
  by (simp add: streamRequest_def)

lemma fetchCredits_without_key:
  "apiKey st = [] \<Longrightarrow> fetchCredits st transport reduce = (None, [])"
  by (simp add: fetchCredits_def)

text \<open>
  Claim C2 says that no network operation sends a request while the key is empty.
  \<open>streamRequest\<close> and \<open>fetchCredits\<close> test the key first; \<open>fetchWithRetry\<close> does
  not: with the default settings, whose key is empty, it sends three requests with an
  empty bearer token, waiting the delay and then one and a half times the delay (2000 and
  3000 milliseconds), and throws the error of the last response.
\<close>

theorem fetchWithRetry_sends_without_key:
  "apiKey DEFAULT_SETTINGS = []
   \<and> map bearer (requests (snd (fetchWithRetry exact DEFAULT_SETTINGS (always_status 401) 3 2000)))
       = replicate 3 []
   \<and> waits (snd (fetchWithRetry exact DEFAULT_SETTINGS (always_status 401) 3 2000)) = [2000, 3000]
   \<and> fst (fetchWithRetry exact DEFAULT_SETTINGS (always_status 401) 3 2000) = Thrown (ApiError 401 None)
   \<and> map bearer (requests (snd (fetchWithRetry ar DEFAULT_SETTINGS (always_status 401) 3 d)))
       = replicate 3 []
   \<and> waits (snd (fetchWithRetry ar DEFAULT_SETTINGS (always_status 401) 3 d)) = [d, times_1_5 ar d]
   \<and> fst (fetchWithRetry ar DEFAULT_SETTINGS (always_status 401) 3 d) = Thrown (ApiError 401 None)"
  by (simp add: fetchWithRetry_def fetch_loop.simps always_status_def classify_def api_error_of_def
      Let_def DEFAULT_SETTINGS_def numeral_3_eq_3 exact_def)

section \<open>The streaming protocol handler\<close>

lemma split_nl_not_Nil: "split_nl t \<noteq> []"
  by (induction t) (auto split: list.splits)

lemma split_nl_no_newline: "0xA \<notin> set t \<Longrightarrow> split_nl t = [t]"
  by (induction t) auto

lemma last_split_nl_no_newline: "0xA \<notin> set (last (split_nl t))"
  by (induction t) (auto split: list.splits simp: split_nl_not_Nil)

lemma split_nl_append:
  "split_nl (a @ b) = butlast (split_nl a) @ split_nl (last (split_nl a) @ b)"
proof (induction a)
  case Nil
  show ?case by simp
next
  case (Cons c cs)
  show ?case
  proof (cases "c = 0xA")
    case True
    then show ?thesis using Cons by (simp add: split_nl_not_Nil)
  next
    case False
    obtain l ls where s: "split_nl cs = l # ls"
      using split_nl_not_Nil [of cs] by (cases "split_nl cs") auto
    show ?thesis
    proof (cases ls)
      case Nil
      then show ?thesis using False s Cons by simp
    next
      case (Cons l' ls')
      then show ?thesis using False s Cons.IH by (simp split: list.splits)
    qed
  qed
qed


lemma pop_split_nl: "pop (split_nl t) = (Some (last (split_nl t)), butlast (split_nl t))"
  by (simp add: pop_def split_nl_not_Nil)

lemma utf8_bytes_append:
  "utf8_bytes d (a @ b) =
     (case utf8_bytes d a of (d1, o1) \<Rightarrow> (case utf8_bytes d1 b of (d2, o2) \<Rightarrow> (d2, o1 @ o2)))"
  by (induction a arbitrary: d) (auto split: prod.splits)

lemma serialize_seen: "serialize True cs = (True, cs)"
  by (cases cs) auto

lemma serialize_append:
  "serialize seen (x @ y) =
     (case serialize seen x of (s1, o1) \<Rightarrow> (case serialize s1 y of (s2, o2) \<Rightarrow> (s2, o1 @ o2)))"
  by (cases x) (auto simp: serialize_seen)

lemma decode_append:
  "decode td (a @ b) =
     (case decode td a of (td1, o1) \<Rightarrow> (case decode td1 b of (td2, o2) \<Rightarrow> (td2, o1 @ o2)))"
  by (simp add: decode_def utf8_bytes_append serialize_append split: prod.splits)

lemma decode_Nil: "decode td [] = (td, [])"
  by (simp add: decode_def)

text \<open>
  The two bytes of U+00E9 in one chunk, and in two: the first chunk alone yields no text.
  A character beyond U+FFFF comes out as its two surrogates.
\<close>

lemma decode_split_character:
  "snd (decode new_TextDecoder [0xC3, 0xA9]) = [0xE9]
   \<and> snd (decode new_TextDecoder [0xC3]) = []
   \<and> snd (decode (fst (decode new_TextDecoder [0xC3])) [0xA9]) = [0xE9]
   \<and> snd (decode new_TextDecoder [0xF0, 0x9F, 0x98, 0x80]) = [0xD83D, 0xDE00]"
  by (simp add: decode_def new_TextDecoder_def utf8_byte_def utf8_lead_def utf8_initial_def
      utf16_units_def)

lemma opt_member_Some: "opt_member (Some v) n = (if v = JNull then None else js_member v n)"
  by (cases v) auto

lemma js_member_falsy: "\<not> truthy v \<Longrightarrow> js_member v n = None"
  by (cases v) auto

lemma truthy_not_null: "truthy v \<Longrightarrow> v \<noteq> JNull"
  by auto

lemma handle_data_event:
  assumes "parse (drop 6 t) = Some data" and "data \<noteq> JNull"
  shows "handle_data parse onR s line t =
        (case opt_member (opt_first (js_member data (ustr ''choices''))) (ustr ''delta'') of
           None \<Rightarrow> s
         | Some delta \<Rightarrow>
             if truthy delta then
               (case (case js_member delta (ustr ''content'') of
                        None \<Rightarrow> Some s
                      | Some content \<Rightarrow>
                          if truthy content then
                            (case js_to_string content of
                               None \<Rightarrow> None
                             | Some text \<Rightarrow>
                                 Some (s\<lparr>fullText := fullText s @ text,
                                         calls := calls s @ [OnToken content]\<rparr>))
                          else Some s) of
                  None \<Rightarrow> s\<lparr>console := console s @ [ConsoleWarn line]\<rparr>
                | Some s1 \<Rightarrow>
                    (case js_member delta (ustr ''reasoning'') of
                       None \<Rightarrow> s1
                     | Some reasoning \<Rightarrow>
                         if truthy reasoning \<and> onR then
                           s1\<lparr>calls := calls s1 @ [OnReasoning reasoning]\<rparr>
                         else s1))
             else s)"
  using assms by (cases data) (simp_all add: handle_data_def)

text \<open>A line only appends to the text, the callbacks and the console of the session.\<close>

lemma handle_data_append:
  "handle_data parse onR s line t =
     s\<lparr>fullText := fullText s @ fullText (handle_data parse onR new_session line t),
       calls := calls s @ calls (handle_data parse onR new_session line t),
       console := console s @ console (handle_data parse onR new_session line t)\<rparr>"
proof (cases "parse (drop 6 t)")
  case None
  then show ?thesis by (cases s) (simp add: handle_data_def new_session_def)
next
  case (Some data)
  show ?thesis
  proof (cases "data = JNull")
    case True
    then show ?thesis using Some by (cases s) (simp add: handle_data_def new_session_def)
  next
    case False
    show ?thesis
      by (cases s)
        (simp add: handle_data_event [where parse = parse and t = t, OF Some False] new_session_def split: option.splits)
  qed
qed

lemma process_line_effect:
  "process_line parse onR s line =
     s\<lparr>fullText := fullText s @ fullText (line_effect parse onR line),
       calls := calls s @ calls (line_effect parse onR line),
       console := console s @ console (line_effect parse onR line)\<rparr>"
proof -
  have "handle_data parse onR s line t =
     s\<lparr>fullText := fullText s @ fullText (handle_data parse onR new_session line t),
       calls := calls s @ calls (handle_data parse onR new_session line t),
       console := console s @ console (handle_data parse onR new_session line t)\<rparr>" for t
    by (rule handle_data_append)
  then show ?thesis
    by (cases s) (simp add: process_line_def line_effect_def Let_def new_session_def)
qed

lemma process_lines_effect:
  "foldl (process_line parse onR) s ls =
     s\<lparr>fullText := fullText s @ concat (map (\<lambda>l. fullText (line_effect parse onR l)) ls),
       calls := calls s @ concat (map (\<lambda>l. calls (line_effect parse onR l)) ls),
       console := console s @ concat (map (\<lambda>l. console (line_effect parse onR l)) ls)\<rparr>"
proof (induction ls arbitrary: s)
  case Nil
  show ?case by simp
next
  case (Cons l ls)
  show ?case
    by (simp only: foldl_Cons Cons.IH) (simp add: process_line_effect)
qed

lemma read_chunk_effect:
  "read_chunk parse onR s bytes =
     s\<lparr>fullText := fullText s
          @ concat (map (\<lambda>l. fullText (line_effect parse onR l))
              (butlast (split_nl (buffer s @ snd (decode (decoder s) bytes))))),
       buffer := last (split_nl (buffer s @ snd (decode (decoder s) bytes))),
       decoder := fst (decode (decoder s) bytes),
       calls := calls s @ concat (map (\<lambda>l. calls (line_effect parse onR l))
              (butlast (split_nl (buffer s @ snd (decode (decoder s) bytes))))),
       console := console s @ concat (map (\<lambda>l. console (line_effect parse onR l))
              (butlast (split_nl (buffer s @ snd (decode (decoder s) bytes)))))\<rparr>"
  by (cases s) (simp add: read_chunk_def pop_split_nl process_lines_effect split: prod.splits)

text \<open>
  The lines of the specification and the lines of the code: \<open>trim\<close> leaves the text
  between the white space, and \<open>startsWith\<close> tells whether the text begins with the
  marker. Every line without a line feed is the text of a well-formed line.
\<close>

lemma starts_with_by_take: "starts_with_by (=) p s = (take (length p) s = p)"
  by (induction "(=) :: 'a \<Rightarrow> 'a \<Rightarrow> bool" p s rule: starts_with_by.induct) auto







lemma trim_decomposition:
  "\<exists>a b. s = a @ trim s @ b \<and> blank a \<and> blank b
     \<and> (trim s = [] \<or> (\<not> js_whitespace (hd (trim s)) \<and> \<not> js_whitespace (last (trim s))))"
proof -
  define a where "a = takeWhile js_whitespace s"
  define m where "m = dropWhile js_whitespace s"
  define b where "b = rev (takeWhile js_whitespace (rev m))"
  define d where "d = dropWhile js_whitespace (rev m)"
  have t: "trim s = rev d" by (simp add: trim_def d_def m_def)
  have "rev m = rev b @ d" by (simp add: b_def d_def)
  then have "rev (rev m) = rev (rev b @ d)" by (rule arg_cong)
  then have m: "m = rev d @ b" by simp
  have s: "s = a @ rev d @ b" unfolding m [symmetric] by (simp add: a_def m_def)
  have ba: "blank a"
    by (auto simp: a_def blank_def list_all_iff dest: set_takeWhileD)
  have bb: "blank b"
    by (auto simp: b_def blank_def list_all_iff dest: set_takeWhileD)
  have h: "\<not> js_whitespace (hd (rev d))" if "d \<noteq> []"
  proof -
    have "m \<noteq> []" using that m by simp
    then have "\<not> js_whitespace (hd m)" unfolding m_def by (rule hd_dropWhile)
    moreover have "hd m = hd (rev d)" using m that by simp
    ultimately show ?thesis by simp
  qed
  have l: "\<not> js_whitespace (last (rev d))" if "d \<noteq> []"
  proof -
    have "\<not> js_whitespace (hd d)" using that unfolding d_def by (rule hd_dropWhile)
    then show ?thesis using that by (simp add: last_rev)
  qed
  have "s = a @ trim s @ b \<and> blank a \<and> blank b
     \<and> (trim s = [] \<or> (\<not> js_whitespace (hd (trim s)) \<and> \<not> js_whitespace (last (trim s))))"
    unfolding t using s ba bb h l by auto
  then show ?thesis by blast
qed

lemma every_line_well_formed:
  assumes "0xA \<notin> set l"
  shows "\<exists>item. well_formed item \<and> line_text item = l"
proof -
  define t where "t = trim l"
  obtain a b where s: "l = a @ t @ b" and a: "blank a" and b: "blank b"
    and tt: "t = [] \<or> (\<not> js_whitespace (hd t) \<and> \<not> js_whitespace (last t))"
    using trim_decomposition [of l] unfolding t_def by blast
  have n: "0xA \<notin> set (a @ t @ b)" using assms unfolding s .
  show ?thesis
  proof (cases "take 6 t = ustr ''data: ''")
    case False
    have "well_formed (OtherLine a t b)" using a b tt n False by simp
    moreover have "line_text (OtherLine a t b) = l" using s by simp
    ultimately show ?thesis by blast
  next
    case True
    define p where "p = drop 6 t"
    have "take 6 t @ drop 6 t = t" by (rule append_take_drop_id)
    then have e: "t = ustr ''data: '' @ p" unfolding True p_def by (rule sym)
    have ne: "t \<noteq> []" unfolding e by (simp add: ustr_def)
    have lw: "\<not> js_whitespace (last t)" using tt ne by blast
    have p: "p \<noteq> []"
    proof
      assume "p = []"
      then have "t = ustr ''data: ''" using e by simp
      then show False using lw by (simp add: ustr_def js_whitespace_def)
    qed
    have lp: "last t = last p" unfolding e using p by simp
    have n2: "0xA \<notin> set (a @ p @ b)" using n unfolding e by simp
    have "well_formed (DataLine a p b)" using a b p lw lp n2 by simp
    moreover have "line_text (DataLine a p b) = l" unfolding s e by simp
    ultimately show ?thesis by blast
  qed
qed

text \<open>What a data line does, in the words of the specification.\<close>

lemma delta_field_member:
  assumes "data \<noteq> JNull"
  shows "delta_field data name =
           (case opt_member (opt_first (js_member data (ustr ''choices''))) (ustr ''delta'') of
              None \<Rightarrow> None
            | Some delta \<Rightarrow>
                if truthy delta then
                  (case js_member delta name of
                     None \<Rightarrow> None
                   | Some v \<Rightarrow> if truthy v then Some v else None)
                else None)"
proof (cases "opt_member (opt_first (js_member data (ustr ''choices''))) (ustr ''delta'')")
  case None
  then show ?thesis using assms by (simp add: delta_field_def first_choice_def opt_member_Some)
next
  case (Some delta)
  show ?thesis
  proof (cases "truthy delta")
    case True
    then have "delta \<noteq> JNull" by auto
    then show ?thesis using Some True assms
      by (simp add: delta_field_def first_choice_def opt_member_Some)
  next
    case False
    then show ?thesis using Some assms
      by (simp add: delta_field_def first_choice_def opt_member_Some js_member_falsy)
  qed
qed

lemma handle_data_frame:
  "handle_data parse onR new_session line t =
     new_session
       \<lparr>fullText := concat (map delta_text
            (case parse (drop 6 t) of
               None \<Rightarrow> []
             | Some data \<Rightarrow> if readable data then frame_deltas onR data else [])),
        calls := (case parse (drop 6 t) of
               None \<Rightarrow> []
             | Some data \<Rightarrow> if readable data then frame_deltas onR data else []),
        console := (case parse (drop 6 t) of
               None \<Rightarrow> [ConsoleWarn line]
             | Some data \<Rightarrow> if readable data then [] else [ConsoleWarn line])\<rparr>"
proof (cases "parse (drop 6 t)")
  case None
  then show ?thesis by (simp add: handle_data_def new_session_def)
next
  case (Some data)
  show ?thesis
  proof (cases "data = JNull")
    case True
    then show ?thesis using Some by (simp add: handle_data_def readable_def new_session_def)
  next
    case False
    show ?thesis
      unfolding handle_data_event [where parse = parse and t = t, OF Some False]
      using Some False
      by (simp add: readable_def frame_deltas_def delta_field_member new_session_def
          split: option.splits)
  qed
qed



lemma butlast_split_nl_append:
  "butlast (split_nl (a @ b))
     = butlast (split_nl a) @ butlast (split_nl (last (split_nl a) @ b))"
  by (subst split_nl_append) (simp add: butlast_append split_nl_not_Nil)

lemma last_split_nl_append:
  "last (split_nl (a @ b)) = last (split_nl (last (split_nl a) @ b))"
  by (subst split_nl_append) (simp add: split_nl_not_Nil)

lemma decode_append_snd:
  "snd (decode td (a @ b)) = snd (decode td a) @ snd (decode (fst (decode td a)) b)"
  by (simp add: decode_append split: prod.splits)

lemma decode_append_fst:
  "fst (decode td (a @ b)) = fst (decode (fst (decode td a)) b)"
  by (simp add: decode_append split: prod.splits)

lemma butlast_split_nl_append3:
  "butlast (split_nl (x @ y @ z))
     = butlast (split_nl (x @ y)) @ butlast (split_nl (last (split_nl (x @ y)) @ z))"
  using butlast_split_nl_append [of "x @ y" z] by simp

lemma last_split_nl_append3:
  "last (split_nl (x @ y @ z)) = last (split_nl (last (split_nl (x @ y)) @ z))"
  using last_split_nl_append [of "x @ y" z] by simp

lemma read_chunk_append:
  "read_chunk parse onR s (a @ b) = read_chunk parse onR (read_chunk parse onR s a) b"
  by (cases s)
    (simp add: read_chunk_effect decode_append_snd decode_append_fst
      butlast_split_nl_append3 last_split_nl_append3)

lemma read_chunk_Nil:
  "0xA \<notin> set (buffer s) \<Longrightarrow> read_chunk parse onR s [] = s"
  by (simp add: read_chunk_effect decode_Nil split_nl_no_newline)

lemma buffer_read_chunk: "0xA \<notin> set (buffer (read_chunk parse onR s bytes))"
  by (simp add: read_chunk_effect last_split_nl_no_newline)

lemma read_chunks_concat:
  "0xA \<notin> set (buffer s) \<Longrightarrow>
   foldl (read_chunk parse onR) s chunks = read_chunk parse onR s (concat chunks)"
proof (induction chunks arbitrary: s)
  case Nil
  then show ?case by (simp add: read_chunk_Nil)
next
  case (Cons c chunks)
  have "foldl (read_chunk parse onR) s (c # chunks)
          = foldl (read_chunk parse onR) (read_chunk parse onR s c) chunks"
    by simp
  also have "\<dots> = read_chunk parse onR (read_chunk parse onR s c) (concat chunks)"
    by (rule Cons.IH) (rule buffer_read_chunk)
  also have "\<dots> = read_chunk parse onR s (concat (c # chunks))"
    by (simp add: read_chunk_append)
  finally show ?case .
qed

lemma read_loop_reader_of:
  "read_loop parse onR s (reader_of chunks ending)
     = read_loop parse onR (foldl (read_chunk parse onR) s chunks) ending"
  by (induction chunks arbitrary: s) (simp_all add: reader_of_def)

lemma read_loop_chunks:
  "0xA \<notin> set (buffer s) \<Longrightarrow>
   read_loop parse onR s (reader_of chunks ending)
     = read_loop parse onR (read_chunk parse onR s (concat chunks)) ending"
  by (simp add: read_loop_reader_of read_chunks_concat)

lemma buffer_new_session: "0xA \<notin> set (buffer new_session)"
  by (simp add: new_session_def)

lemma error_detail_body: "error_detail (r\<lparr>body := b\<rparr>) = error_detail r"
  by (cases "json_result r") (simp_all add: error_detail_def split: option.splits)

lemma declares_json_body: "declares_json (r\<lparr>body := b\<rparr>) = declares_json r"
  by (simp add: declares_json_def)

text \<open>
  Claim C7. Chunk-boundary independence: for every list of chunks, wherever the
  boundaries fall (inside a multi-byte character, inside a line), the request ends in the
  same session (the same callbacks with the same arguments in the same order, the same
  console lines) as when the concatenated bytes arrive as a single chunk; this holds
  whether the body then ends or the reader rejects.
\<close>

theorem chunk_boundary_independence:
  "StreamManager_streamRequest (fetch_always (r\<lparr>body := reader_of chunks ending\<rparr>))
       parse url' apiKey' onReasoning
     = StreamManager_streamRequest (fetch_always (r\<lparr>body := reader_of [concat chunks] ending\<rparr>))
         parse url' apiKey' onReasoning"
proof -
  have "read_loop parse onReasoning new_session (reader_of chunks ending)
          = read_loop parse onReasoning new_session (reader_of [concat chunks] ending)"
    using buffer_new_session by (simp add: read_loop_chunks)
  then show ?thesis
    by (simp add: StreamManager_streamRequest_def fetch_always_def handle_fetched_def
        error_detail_body declares_json_body)
qed














text \<open>
  The match of the pattern \<open><think>([\s\S]*?)</think>\<close> is the text enclosed by the
  first think-tag pair.
\<close>

lemma find_map_Suc: "find P (map Suc xs) = map_option Suc (find (P \<circ> Suc) xs)"
  by (induction xs) auto

lemma first_occurrence_Nil: "first_occurrence p [] = (if p = [] then Some 0 else None)"
  by (auto simp: first_occurrence_def occurs_at_def)

lemma first_occurrence_Cons:
  "first_occurrence p (c # cs) =
     (if take (length p) (c # cs) = p then Some 0 else map_option Suc (first_occurrence p cs))"
proof -
  have u: "[0..<Suc (Suc (length cs))] = 0 # map Suc [0..<Suc (length cs)]"
    by (simp add: upt_conv_Cons map_Suc_upt del: upt_Suc)
  have o: "occurs_at p (c # cs) \<circ> Suc = occurs_at p cs"
    by (auto simp: occurs_at_def fun_eq_iff)
  have z: "occurs_at p (c # cs) 0 = (take (length p) (c # cs) = p)"
    by (simp add: occurs_at_def)
  show ?thesis
    unfolding first_occurrence_def length_Cons u find.simps find_map_Suc o z by simp
qed

lemma find_sub_first_occurrence:
  "find_sub (=) p s
     = map_option (\<lambda>i. (take i s, drop (i + length p) s)) (first_occurrence p s)"
proof (induction s)
  case Nil
  show ?case by (simp add: first_occurrence_Nil)
next
  case (Cons c cs)
  show ?case
  proof (cases "take (length p) (c # cs) = p")
    case True
    then show ?thesis
      by (simp only: find_sub.simps starts_with_by_take first_occurrence_Cons) simp
  next
    case False
    then show ?thesis
      by (simp only: find_sub.simps starts_with_by_take first_occurrence_Cons Cons.IH)
        (cases "first_occurrence p cs", simp_all)
  qed
qed

lemma think_match_enclosed: "think_match content = enclosed_think content"
proof -
  have l: "length (ustr ''<think>'') = 7" by (simp add: ustr_def)
  show ?thesis
    by (simp add: think_match_def enclosed_think_def find_sub_first_occurrence l
        split: option.splits)
qed

lemma think_match_not_included:
  "\<not> includes_str c (ustr ''<think>'') \<Longrightarrow> think_match c = None"
  by (cases "find_sub (=) (ustr ''<think>'') c") (simp_all add: includes_str_def think_match_def)

lemma fallback_reasoning_string:
  "fallback_reasoning onR s (JStr c) reasoning =
     Inr (s\<lparr>calls := calls s
            @ (if onR then (case found_reasoning reasoning c of
                             None \<Rightarrow> [] | Some v \<Rightarrow> [OnReasoning v])
               else [])\<rparr>)"
  by (cases "think_match c")
    (auto simp: fallback_reasoning_def found_reasoning_def think_match_not_included
      think_match_enclosed [symmetric])

lemma first_choice_not_null: "first_choice j = Some choice \<Longrightarrow> j \<noteq> JNull"
  by (auto simp: first_choice_def)

lemma json_fallback_choice:
  assumes "first_choice j = Some choice" and "truthy choice"
    and "message_field choice (ustr ''content'') = JStr c"
  shows "json_fallback onR s j =
     Inr (s\<lparr>calls := calls s
            @ (if onR then (case found_reasoning (message_field choice (ustr ''reasoning'')) c of
                             None \<Rightarrow> [] | Some v \<Rightarrow> [OnReasoning v])
               else [])
            @ (if c \<noteq> [] then [OnToken (JStr c)] else [])
            @ [OnComplete (JStr c)]\<rparr>)"
proof -
  have j: "j \<noteq> JNull" using assms(1) by (rule first_choice_not_null)
  have ch: "choice \<noteq> JNull" using assms(2) by auto
  have fc: "opt_first (js_member j (ustr ''choices'')) = Some choice"
    using assms(1) j by (simp add: first_choice_def opt_member_Some)
  have ct: "or_empty (opt_member (js_member choice (ustr ''message'')) (ustr ''content'')) = JStr c"
    using assms(3) ch by (simp add: message_field_def opt_member_Some)
  have rs: "or_empty (opt_member (js_member choice (ustr ''message'')) (ustr ''reasoning''))
              = message_field choice (ustr ''reasoning'')"
    using ch by (simp add: message_field_def opt_member_Some)
  show ?thesis
    using j fc assms(2)
    by (simp add: json_fallback_def ct rs fallback_reasoning_string Let_def)
qed

lemma json_fallback_no_choice:
  assumes "j \<noteq> JNull" and "\<not> truthy_opt (opt_first (js_member j (ustr ''choices'')))"
  shows "json_fallback onR s j = Inr s"
  using assms by (auto simp: json_fallback_def split: option.splits)

lemma handle_fetched_json:
  assumes "ok r" and "has_body r" and "declares_json r" and "json_result r = Inr j"
  shows "handle_fetched parse onR (FetchResolved r)
           = (case json_fallback onR new_session j of
                Inl e \<Rightarrow> catch_error new_session e | Inr s \<Rightarrow> s)"
  using assms by (simp add: handle_fetched_def)

lemma first_choice_completion:
  "first_choice (completion_json c) = Some (JObj [(ustr ''message'', JObj [(ustr ''content'', JStr c)])])"
  by (simp add: first_choice_def completion_json_def ustr_def)

lemma message_content_completion:
  "message_field (JObj [(ustr ''message'', JObj [(ustr ''content'', JStr c)])]) (ustr ''content'') = JStr c"
  by (simp add: message_field_def or_empty_def ustr_def)

lemma message_reasoning_completion:
  "message_field (JObj [(ustr ''message'', JObj [(ustr ''content'', JStr c)])]) (ustr ''reasoning'') = JStr []"
  by (simp add: message_field_def or_empty_def ustr_def)

lemma declares_json_response: "declares_json (json_response j)"
  by (simp add: declares_json_def json_response_def includes_str_def ustr_def)

lemma handle_fetched_json_response:
  "handle_fetched parse onR (FetchResolved (json_response j))
     = (case json_fallback onR new_session j of
          Inl e \<Rightarrow> catch_error new_session e | Inr s \<Rightarrow> s)"
  by (rule handle_fetched_json [OF _ _ declares_json_response]) (simp_all add: json_response_def)

lemma provider_streamRequest_callbacks:
  "apiKey st \<noteq> [] \<Longrightarrow>
   callbacks (streamRequest st fetch parse model)
     = calls (StreamManager_streamRequest fetch parse (apiUrl st) (apiKey st) False)"
  by (simp add: streamRequest_def Let_def)

lemma first_choice_reasoned:
  "first_choice reasoned_json
     = Some (JObj [(ustr ''message'',
                    JObj [(ustr ''content'', JStr (ustr ''Hello'')),
                          (ustr ''reasoning'', JStr (ustr ''why''))])])"
  by (simp add: first_choice_def reasoned_json_def ustr_def)

lemma message_fields_reasoned:
  "message_field (JObj [(ustr ''message'',
                    JObj [(ustr ''content'', JStr (ustr ''Hello'')),
                          (ustr ''reasoning'', JStr (ustr ''why''))])]) (ustr ''content'')
     = JStr (ustr ''Hello'')"
  "message_field (JObj [(ustr ''message'',
                    JObj [(ustr ''content'', JStr (ustr ''Hello'')),
                          (ustr ''reasoning'', JStr (ustr ''why''))])]) (ustr ''reasoning'')
     = JStr (ustr ''why'')"
  by (simp_all add: message_field_def or_empty_def ustr_def)

lemma found_reasoning_examples:
  "found_reasoning (JStr []) (ustr ''<think>plan</think>Hello'') = Some (JStr (ustr ''plan''))"
  "found_reasoning (JStr []) (ustr ''Hello'') = None"
  "found_reasoning (JStr (ustr ''why'')) (ustr ''Hello'') = Some (JStr (ustr ''why''))"
  by (simp_all add: found_reasoning_def enclosed_think_def first_occurrence_Cons
      first_occurrence_Nil ustr_def)

lemma single_document_number_content:
  "calls (StreamManager_streamRequest (fetch_always (json_response number_json)) parse
      url' apiKey' onR)
     = [OnError TypeError]"
  by (simp add: StreamManager_streamRequest_def fetch_always_def handle_fetched_json_response
      json_fallback_def fallback_reasoning_def or_empty_def catch_error_def new_session_def
      number_json_def ustr_def Let_def)

text \<open>
  Claim C3, as stated: in single-document mode one Reasoning delta is emitted when a
  reasoning field is found, and the call completes. The first fails for a caller that
  passes no \<open>onReasoning\<close>, which is an optional parameter: for the body
  \<open>{"choices":[{"message":{"content":"Hello","reasoning":"why"}}]}\<close> the callbacks are
  \<open>onToken("Hello")\<close> and \<open>onComplete("Hello")\<close> only. The provider's own
  \<open>streamRequest\<close> is such a caller. The second fails for a content that is not a
  string: for the body \<open>{"choices":[{"message":{"content":5}}]}\<close> the call
  \<open>content.includes\<close> throws, and the only callback is \<open>onError\<close>.
\<close>

theorem reasoning_without_callback_counterexample:
  "ok (json_response reasoned_json) \<and> has_body (json_response reasoned_json)
   \<and> declares_json (json_response reasoned_json)
   \<and> json_result (json_response reasoned_json) = Inr reasoned_json
   \<and> first_choice reasoned_json
       = Some (JObj [(ustr ''message'',
                      JObj [(ustr ''content'', JStr (ustr ''Hello'')),
                            (ustr ''reasoning'', JStr (ustr ''why''))])])
   \<and> message_field (JObj [(ustr ''message'',
                      JObj [(ustr ''content'', JStr (ustr ''Hello'')),
                            (ustr ''reasoning'', JStr (ustr ''why''))])]) (ustr ''reasoning'')
       = JStr (ustr ''why'')
   \<and> calls (StreamManager_streamRequest (fetch_always (json_response reasoned_json)) parse_nothing
         (apiUrl keyed_settings) (apiKey keyed_settings) False)
       = [OnToken (JStr (ustr ''Hello'')), OnComplete (JStr (ustr ''Hello''))]
   \<and> callbacks (streamRequest keyed_settings (fetch_always (json_response reasoned_json))
         parse_nothing (ustr ''deepseek/deepseek-r1''))
       = [OnToken (JStr (ustr ''Hello'')), OnComplete (JStr (ustr ''Hello''))]
   \<and> first_choice number_json
       = Some (JObj [(ustr ''message'', JObj [(ustr ''content'', JNum (ustr ''5''))])])
   \<and> calls (StreamManager_streamRequest (fetch_always (json_response number_json)) parse_nothing
         (apiUrl keyed_settings) (apiKey keyed_settings) True)
       = [OnError TypeError]"
proof -
  have n: "first_choice number_json
       = Some (JObj [(ustr ''message'', JObj [(ustr ''content'', JNum (ustr ''5''))])])"
    by (simp add: first_choice_def number_json_def ustr_def)
  have ne: "ustr ''Hello'' \<noteq> []" by (simp add: ustr_def)
  have "json_fallback False new_session reasoned_json
          = Inr (new_session\<lparr>calls := [OnToken (JStr (ustr ''Hello'')),
                                        OnComplete (JStr (ustr ''Hello''))]\<rparr>)"
    using json_fallback_choice [OF first_choice_reasoned _ message_fields_reasoned(1),
        of False new_session] ne
    by (simp add: new_session_def)
  then have c: "calls (StreamManager_streamRequest (fetch_always (json_response reasoned_json))
         parse_nothing u k False)
       = [OnToken (JStr (ustr ''Hello'')), OnComplete (JStr (ustr ''Hello''))]" for u k
    by (simp add: StreamManager_streamRequest_def fetch_always_def handle_fetched_json_response)
  have k: "apiKey keyed_settings \<noteq> []" by (simp add: keyed_settings_def ustr_def)
  show ?thesis
    using c n first_choice_reasoned message_fields_reasoned(2) declares_json_response
    by (simp add: provider_streamRequest_callbacks [OF k] single_document_number_content)
      (simp add: json_response_def)
qed

text \<open>
  Claim C3, amended. In single-document mode (status ok, a body, a content type that
  declares JSON, a body that parses), with a first choice that is not empty and whose
  message content is a string (or absent, which counts as the empty string): a caller
  that passed \<open>onReasoning\<close> gets one call of it when reasoning is found (the reasoning
  field when it is not empty, else the text of the first think-tag pair of the content),
  and this call comes first; then \<open>onToken\<close> is called once with the whole content if
  it is not empty; then \<open>onComplete\<close> is called with the content. A caller that passed
  no \<open>onReasoning\<close> gets the same calls without the first. For the body
  \<open>{"choices":[{"message":{"content":"Hello"}}]}\<close> the callbacks are
  \<open>onToken("Hello")\<close> and then \<open>onComplete("Hello")\<close>, and no other.
\<close>

theorem single_document_fallback:
  "(fetch \<lparr> url = url', bearer = apiKey', streaming = True \<rparr> = FetchResolved r
      \<and> ok r \<and> has_body r \<and> declares_json r \<and> json_result r = Inr j
      \<and> first_choice j = Some choice \<and> truthy choice
      \<and> message_field choice (ustr ''content'') = JStr c
    \<longrightarrow> calls (StreamManager_streamRequest fetch parse url' apiKey' True)
          = (case found_reasoning (message_field choice (ustr ''reasoning'')) c of
               None \<Rightarrow> [] | Some v \<Rightarrow> [OnReasoning v])
            @ (if c \<noteq> [] then [OnToken (JStr c)] else [])
            @ [OnComplete (JStr c)]
        \<and> calls (StreamManager_streamRequest fetch parse url' apiKey' False)
          = (if c \<noteq> [] then [OnToken (JStr c)] else []) @ [OnComplete (JStr c)])
   \<and> (fetch' \<lparr> url = url', bearer = apiKey', streaming = True \<rparr> = FetchResolved r'
      \<and> ok r' \<and> has_body r' \<and> declares_json r'
      \<and> json_result r' = Inr (completion_json (ustr ''Hello''))
    \<longrightarrow> calls (StreamManager_streamRequest fetch' parse url' apiKey' onReasoning)
          = [OnToken (JStr (ustr ''Hello'')), OnComplete (JStr (ustr ''Hello''))])"
proof (intro conjI impI)
  assume a: "fetch \<lparr> url = url', bearer = apiKey', streaming = True \<rparr> = FetchResolved r
      \<and> ok r \<and> has_body r \<and> declares_json r \<and> json_result r = Inr j
      \<and> first_choice j = Some choice \<and> truthy choice
      \<and> message_field choice (ustr ''content'') = JStr c"
  have s: "StreamManager_streamRequest fetch parse url' apiKey' onR
             = (case json_fallback onR new_session j of
                  Inl e \<Rightarrow> catch_error new_session e | Inr s \<Rightarrow> s)" for onR
    using a by (simp add: StreamManager_streamRequest_def handle_fetched_json)
  have f: "json_fallback onR new_session j =
     Inr (new_session\<lparr>calls := calls new_session
            @ (if onR then (case found_reasoning (message_field choice (ustr ''reasoning'')) c of
                             None \<Rightarrow> [] | Some v \<Rightarrow> [OnReasoning v])
               else [])
            @ (if c \<noteq> [] then [OnToken (JStr c)] else [])
            @ [OnComplete (JStr c)]\<rparr>)" for onR
    using a by (intro json_fallback_choice) auto
  show "calls (StreamManager_streamRequest fetch parse url' apiKey' True)
          = (case found_reasoning (message_field choice (ustr ''reasoning'')) c of
               None \<Rightarrow> [] | Some v \<Rightarrow> [OnReasoning v])
            @ (if c \<noteq> [] then [OnToken (JStr c)] else [])
            @ [OnComplete (JStr c)]"
    by (simp only: s f) (simp add: new_session_def)
  show "calls (StreamManager_streamRequest fetch parse url' apiKey' False)
          = (if c \<noteq> [] then [OnToken (JStr c)] else []) @ [OnComplete (JStr c)]"
    by (simp only: s f) (simp add: new_session_def)
next
  assume b: "fetch' \<lparr> url = url', bearer = apiKey', streaming = True \<rparr> = FetchResolved r'
      \<and> ok r' \<and> has_body r' \<and> declares_json r'
      \<and> json_result r' = Inr (completion_json (ustr ''Hello''))"
  have s: "StreamManager_streamRequest fetch' parse url' apiKey' onReasoning
             = (case json_fallback onReasoning new_session (completion_json (ustr ''Hello'')) of
                  Inl e \<Rightarrow> catch_error new_session e | Inr s \<Rightarrow> s)"
    using b by (simp add: StreamManager_streamRequest_def handle_fetched_json)
  have ne: "ustr ''Hello'' \<noteq> []" by (simp add: ustr_def)
  have "json_fallback onReasoning new_session (completion_json (ustr ''Hello''))
          = Inr (new_session\<lparr>calls := calls new_session
                   @ (if onReasoning then (case found_reasoning (JStr []) (ustr ''Hello'') of
                                            None \<Rightarrow> [] | Some v \<Rightarrow> [OnReasoning v])
                      else [])
                   @ (if ustr ''Hello'' \<noteq> [] then [OnToken (JStr (ustr ''Hello''))] else [])
                   @ [OnComplete (JStr (ustr ''Hello''))]\<rparr>)"
    using json_fallback_choice [OF first_choice_completion _ message_content_completion,
        of "ustr ''Hello''" onReasoning new_session]
    by (simp only: message_reasoning_completion truthy.simps simp_thms)
  then have "json_fallback onReasoning new_session (completion_json (ustr ''Hello''))
          = Inr (new_session\<lparr>calls := [OnToken (JStr (ustr ''Hello'')), OnComplete (JStr (ustr ''Hello''))]\<rparr>)"
    using ne by (simp add: found_reasoning_examples new_session_def)
  then show "calls (StreamManager_streamRequest fetch' parse url' apiKey' onReasoning)
          = [OnToken (JStr (ustr ''Hello'')), OnComplete (JStr (ustr ''Hello''))]"
    by (simp add: s)
qed

theorem single_document_fallback_witness:
  "fetch_always (json_response (completion_json (ustr ''<think>plan</think>Hello'')))
       \<lparr> url = apiUrl keyed_settings, bearer = apiKey keyed_settings, streaming = True \<rparr>
     = FetchResolved (json_response (completion_json (ustr ''<think>plan</think>Hello'')))
   \<and> ok (json_response (completion_json (ustr ''<think>plan</think>Hello'')))
   \<and> has_body (json_response (completion_json (ustr ''<think>plan</think>Hello'')))
   \<and> declares_json (json_response (completion_json (ustr ''<think>plan</think>Hello'')))
   \<and> json_result (json_response (completion_json (ustr ''<think>plan</think>Hello'')))
       = Inr (completion_json (ustr ''<think>plan</think>Hello''))
   \<and> first_choice (completion_json (ustr ''<think>plan</think>Hello''))
       = Some (JObj [(ustr ''message'',
                      JObj [(ustr ''content'', JStr (ustr ''<think>plan</think>Hello''))])])
   \<and> truthy (JObj [(ustr ''message'',
                      JObj [(ustr ''content'', JStr (ustr ''<think>plan</think>Hello''))])])
   \<and> message_field (JObj [(ustr ''message'',
                      JObj [(ustr ''content'', JStr (ustr ''<think>plan</think>Hello''))])])
         (ustr ''content'') = JStr (ustr ''<think>plan</think>Hello'')
   \<and> calls (StreamManager_streamRequest
         (fetch_always (json_response (completion_json (ustr ''<think>plan</think>Hello''))))
         parse_nothing (apiUrl keyed_settings) (apiKey keyed_settings) True)
       = [OnReasoning (JStr (ustr ''plan'')),
          OnToken (JStr (ustr ''<think>plan</think>Hello'')),
          OnComplete (JStr (ustr ''<think>plan</think>Hello''))]
   \<and> calls (StreamManager_streamRequest
         (fetch_always (json_response (completion_json (ustr ''<think>plan</think>Hello''))))
         parse_nothing (apiUrl keyed_settings) (apiKey keyed_settings) False)
       = [OnToken (JStr (ustr ''<think>plan</think>Hello'')),
          OnComplete (JStr (ustr ''<think>plan</think>Hello''))]
   \<and> fetch_always (json_response (completion_json (ustr ''Hello'')))
       \<lparr> url = apiUrl keyed_settings, bearer = apiKey keyed_settings, streaming = True \<rparr>
     = FetchResolved (json_response (completion_json (ustr ''Hello'')))
   \<and> ok (json_response (completion_json (ustr ''Hello'')))
   \<and> has_body (json_response (completion_json (ustr ''Hello'')))
   \<and> declares_json (json_response (completion_json (ustr ''Hello'')))
   \<and> json_result (json_response (completion_json (ustr ''Hello'')))
       = Inr (completion_json (ustr ''Hello''))
   \<and> calls (StreamManager_streamRequest
         (fetch_always (json_response (completion_json (ustr ''Hello'')))) parse_nothing
         (apiUrl keyed_settings) (apiKey keyed_settings) True)
       = [OnToken (JStr (ustr ''Hello'')), OnComplete (JStr (ustr ''Hello''))]"
proof -
  let ?c = "ustr ''<think>plan</think>Hello''"
  let ?j = "completion_json ?c"
  let ?r = "json_response ?j"
  let ?choice = "JObj [(ustr ''message'', JObj [(ustr ''content'', JStr ?c)])]"
  let ?r' = "json_response (completion_json (ustr ''Hello''))"
  have h1: "fetch_always ?r \<lparr> url = apiUrl keyed_settings, bearer = apiKey keyed_settings, streaming = True \<rparr>
              = FetchResolved ?r"
    by (simp add: fetch_always_def)
  have h2: "ok ?r" and h3: "has_body ?r" and h5: "json_result ?r = Inr ?j"
    by (simp_all add: json_response_def)
  have h4: "declares_json ?r" by (rule declares_json_response)
  have h6: "first_choice ?j = Some ?choice" by (rule first_choice_completion)
  have h7: "truthy ?choice" by simp
  have h8: "message_field ?choice (ustr ''content'') = JStr ?c"
    by (rule message_content_completion)
  have g1: "fetch_always ?r' \<lparr> url = apiUrl keyed_settings, bearer = apiKey keyed_settings, streaming = True \<rparr>
              = FetchResolved ?r'"
    by (simp add: fetch_always_def)
  have g2: "ok ?r'" and g3: "has_body ?r'"
    and g5: "json_result ?r' = Inr (completion_json (ustr ''Hello''))"
    by (simp_all add: json_response_def)
  have g4: "declares_json ?r'" by (rule declares_json_response)
  have ne: "?c \<noteq> []" by (simp add: ustr_def)
  have fr: "found_reasoning (message_field ?choice (ustr ''reasoning'')) ?c
              = Some (JStr (ustr ''plan''))"
    by (simp only: message_reasoning_completion found_reasoning_examples)
  have t: "calls (StreamManager_streamRequest (fetch_always ?r) parse_nothing
              (apiUrl keyed_settings) (apiKey keyed_settings) True)
            = [OnReasoning (JStr (ustr ''plan'')), OnToken (JStr ?c), OnComplete (JStr ?c)]
         \<and> calls (StreamManager_streamRequest (fetch_always ?r) parse_nothing
              (apiUrl keyed_settings) (apiKey keyed_settings) False)
            = [OnToken (JStr ?c), OnComplete (JStr ?c)]
         \<and> calls (StreamManager_streamRequest (fetch_always ?r') parse_nothing
              (apiUrl keyed_settings) (apiKey keyed_settings) True)
            = [OnToken (JStr (ustr ''Hello'')), OnComplete (JStr (ustr ''Hello''))]"
    using single_document_fallback [where fetch = "fetch_always ?r" and url' = "apiUrl keyed_settings"
        and apiKey' = "apiKey keyed_settings" and r = ?r and j = ?j and choice = ?choice
        and c = ?c and parse = parse_nothing and fetch' = "fetch_always ?r'" and r' = ?r'
        and onReasoning = True]
      h1 h2 h3 h4 h5 h6 h7 h8 g1 g2 g3 g4 g5 ne fr
    by simp
  show ?thesis
    using t h1 h2 h3 h4 h5 h6 h7 h8 g1 g2 g3 g4 g5 by blast
qed

text \<open>
  Claim C10, as stated: a JSON body that parses and has no first element under
  \<open>choices\<close> makes \<open>streamRequest\<close> return without any callback. It fails for the body
  \<open>null\<close>, which parses, has no choices, and makes \<open>json.choices\<close> throw: the error
  is caught and given to \<open>onError\<close>.
\<close>

theorem null_document_counterexample:
  "ok (json_response JNull) \<and> has_body (json_response JNull)
   \<and> declares_json (json_response JNull)
   \<and> json_result (json_response JNull) = Inr JNull
   \<and> first_choice JNull = None
   \<and> calls (StreamManager_streamRequest (fetch_always (json_response JNull)) parse_nothing
         (apiUrl keyed_settings) (apiKey keyed_settings) True)
       = [OnError TypeError]"
proof -
  have "calls (StreamManager_streamRequest (fetch_always (json_response JNull)) parse_nothing
         (apiUrl keyed_settings) (apiKey keyed_settings) True) = [OnError TypeError]"
    by (simp add: StreamManager_streamRequest_def fetch_always_def handle_fetched_json_response
        json_fallback_def catch_error_def new_session_def)
  then show ?thesis
    by (simp add: declares_json_response first_choice_def) (simp add: json_response_def)
qed

text \<open>
  Claim C10, amended: in single-document mode, if the body parses to a value other than
  \<open>null\<close> that has no first element under \<open>choices\<close> (or a falsy one),
  \<open>streamRequest\<close> returns without invoking any callback and without writing to the
  console.
\<close>

theorem no_choice_no_callback:
  assumes "fetch \<lparr> url = url', bearer = apiKey', streaming = True \<rparr> = FetchResolved r"
    and "ok r" and "has_body r" and "declares_json r" and "json_result r = Inr j"
    and "j \<noteq> JNull" and "\<not> truthy_opt (first_choice j)"
  shows "calls (StreamManager_streamRequest fetch parse url' apiKey' onReasoning) = []
       \<and> console (StreamManager_streamRequest fetch parse url' apiKey' onReasoning) = []"
proof -
  have "\<not> truthy_opt (opt_first (js_member j (ustr ''choices'')))"
    using assms(6,7) by (simp add: first_choice_def opt_member_Some)
  then have "json_fallback onReasoning new_session j = Inr new_session"
    using assms(6) by (rule json_fallback_no_choice [rotated])
  then show ?thesis
    using assms(1-5)
    by (simp add: StreamManager_streamRequest_def handle_fetched_json new_session_def)
qed

theorem no_choice_no_callback_witness:
  "fetch_always (json_response (JObj []))
       \<lparr> url = apiUrl keyed_settings, bearer = apiKey keyed_settings, streaming = True \<rparr>
     = FetchResolved (json_response (JObj []))
   \<and> ok (json_response (JObj [])) \<and> has_body (json_response (JObj []))
   \<and> declares_json (json_response (JObj []))
   \<and> json_result (json_response (JObj [])) = Inr (JObj [])
   \<and> JObj [] \<noteq> JNull \<and> first_choice (JObj []) = None
   \<and> calls (StreamManager_streamRequest (fetch_always (json_response (JObj []))) parse_nothing
         (apiUrl keyed_settings) (apiKey keyed_settings) True) = []
   \<and> console (StreamManager_streamRequest (fetch_always (json_response (JObj []))) parse_nothing
         (apiUrl keyed_settings) (apiKey keyed_settings) True) = []"
proof -
  let ?r = "json_response (JObj [])"
  have h1: "fetch_always ?r \<lparr> url = apiUrl keyed_settings, bearer = apiKey keyed_settings, streaming = True \<rparr>
              = FetchResolved ?r"
    by (simp add: fetch_always_def)
  have h2: "ok ?r" and h3: "has_body ?r" and h5: "json_result ?r = Inr (JObj [])"
    by (simp_all add: json_response_def)
  have h4: "declares_json ?r" by (rule declares_json_response)
  have h6: "JObj [] \<noteq> JNull" by simp
  have fc: "first_choice (JObj []) = None" by (simp add: first_choice_def)
  then have h7: "\<not> truthy_opt (first_choice (JObj []))" by simp
  show ?thesis
    using h1 h2 h3 h4 h5 fc
      no_choice_no_callback [where fetch = "fetch_always ?r" and url' = "apiUrl keyed_settings"
        and apiKey' = "apiKey keyed_settings" and r = ?r and j = "JObj []"
        and parse = parse_nothing and onReasoning = True, OF h1 h2 h3 h4 h5 h6 h7]
    by simp
qed

lemma frame_deltas_not_terminal: "filter is_terminal (frame_deltas onR data) = []"
  by (simp add: frame_deltas_def split: option.splits)

lemma line_effect_not_terminal: "filter is_terminal (calls (line_effect parse onR line)) = []"
proof -
  have "filter is_terminal (calls (handle_data parse onR new_session line t)) = []" for t
    by (simp add: handle_data_frame frame_deltas_not_terminal split: option.splits)
  then show ?thesis
    by (simp add: line_effect_def process_line_def Let_def) (simp add: new_session_def)
qed

lemma lines_not_terminal:
  "filter is_terminal (concat (map (\<lambda>l. calls (line_effect parse onR l)) ls)) = []"
  by (induction ls) (simp_all add: line_effect_not_terminal)

lemma read_loop_calls:
  "filter is_terminal (calls s) = [] \<Longrightarrow>
   filter is_terminal (calls (fst (read_loop parse onR s reader))) = []"
proof (induction reader arbitrary: s)
  case Done
  then show ?case by simp
next
  case (Chunk bytes rest)
  have "filter is_terminal (calls (read_chunk parse onR s bytes)) = []"
    using Chunk.prems by (simp add: read_chunk_effect lines_not_terminal)
  then show ?case using Chunk.IH by simp
next
  case (ReadError e)
  then show ?case by simp
qed

lemma filter_butlast_empty: "filter P xs = [] \<Longrightarrow> filter P (butlast xs) = []"
  by (auto simp: filter_empty_conv dest: in_set_butlastD)

lemma json_fallback_terminal_last:
  "json_fallback onR new_session j = Inr s \<Longrightarrow> filter is_terminal (butlast (calls s)) = []"
  by (auto simp: json_fallback_def fallback_reasoning_def new_session_def Let_def butlast_append
      split: option.splits if_splits json.splits sum.splits)

lemma catch_error_terminal_last:
  "filter is_terminal (calls s) = [] \<Longrightarrow>
   filter is_terminal (butlast (calls (catch_error s e))) = []"
  by (simp add: catch_error_def filter_butlast_empty)

lemma callbacks_terminal_last:
  "filter is_terminal (butlast (calls (handle_fetched parse onR fetched))) = []"
proof (cases fetched)
  case (FetchRejected e)
  then show ?thesis
    by (simp add: handle_fetched_def catch_error_def new_session_def)
next
  case (FetchResolved r)
  have n: "filter is_terminal (calls new_session) = []"
    by (simp add: new_session_def)
  show ?thesis
  proof (cases "ok r \<and> has_body r")
    case False
    then show ?thesis using FetchResolved n
      by (auto simp: handle_fetched_def catch_error_terminal_last)
  next
    case True
    show ?thesis
    proof (cases "declares_json r")
      case dj: True
      show ?thesis
      proof (cases "json_result r")
        case (Inl e)
        then show ?thesis using FetchResolved True dj n
          by (simp add: handle_fetched_def catch_error_terminal_last)
      next
        case (Inr j)
        show ?thesis
        proof (cases "json_fallback onR new_session j")
          case (Inl e)
          then show ?thesis using FetchResolved True dj n \<open>json_result r = Inr j\<close>
            by (simp add: handle_fetched_def catch_error_terminal_last)
        next
          case (Inr s)
          then show ?thesis using FetchResolved True dj \<open>json_result r = Inr j\<close>
            by (simp add: handle_fetched_def json_fallback_terminal_last)
        qed
      qed
    next
      case False
      obtain s err where rl: "read_loop parse onR new_session (body r) = (s, err)"
        by (cases "read_loop parse onR new_session (body r)")
      have ds: "filter is_terminal (calls s) = []"
        using read_loop_calls [OF n, of parse onR "body r"] rl by simp
      show ?thesis
      proof (cases err)
        case None
        then show ?thesis using FetchResolved True False rl ds
          by (simp add: handle_fetched_def)
      next
        case (Some e)
        then show ?thesis using FetchResolved True False rl ds
          by (simp add: handle_fetched_def catch_error_terminal_last)
      qed
    qed
  qed
qed

lemma abort_mid_stream_is_silent:
  assumes "ok r" and "has_body r" and "\<not> declares_json r"
    and "read_loop parse onR new_session (body r) = (s, Some AbortError)"
  shows "calls (handle_fetched parse onR (FetchResolved r)) = calls s
       \<and> filter is_terminal (calls (handle_fetched parse onR (FetchResolved r))) = []"
proof -
  have "filter is_terminal (calls new_session) = []" by (simp add: new_session_def)
  then have "filter is_terminal (calls s) = []"
    using read_loop_calls [of new_session parse onR "body r"] assms(4) by simp
  then show ?thesis using assms by (simp add: handle_fetched_def catch_error_def)
qed

lemma stream_error_reported_once:
  assumes "ok r" and "has_body r" and "\<not> declares_json r"
    and "read_loop parse onR new_session (body r) = (s, Some e)" and "e \<noteq> AbortError"
  shows "filter is_terminal (calls (handle_fetched parse onR (FetchResolved r))) = [OnError e]"
proof -
  have "filter is_terminal (calls new_session) = []" by (simp add: new_session_def)
  then have "filter is_terminal (calls s) = []"
    using read_loop_calls [of new_session parse onR "body r"] assms(4) by simp
  then show ?thesis using assms by (simp add: handle_fetched_def catch_error_def)
qed

lemma stream_end_completes_once:
  assumes "ok r" and "has_body r" and "\<not> declares_json r"
    and "read_loop parse onR new_session (body r) = (s, None)"
  shows "filter is_terminal (calls (handle_fetched parse onR (FetchResolved r)))
           = [OnComplete (JStr (fullText s))]"
proof -
  have "filter is_terminal (calls new_session) = []" by (simp add: new_session_def)
  then have "filter is_terminal (calls s) = []"
    using read_loop_calls [of new_session parse onR "body r"] assms(4) by simp
  then show ?thesis using assms by (simp add: handle_fetched_def)
qed

text \<open>
  Claim C1 says that every call that is not aborted ends in exactly one terminal
  callback. The callbacks before the last are never terminal
  (\<open>callbacks_terminal_last\<close>), a streamed body ends in one \<open>onComplete\<close>
  (\<open>stream_end_completes_once\<close>), an error in one \<open>onError\<close>
  (\<open>stream_error_reported_once\<close>) and an abort in none
  (\<open>abort_mid_stream_is_silent\<close>). But for the single document \<open>{"choices":[]}\<close>
  the call returns with no callback at all, through the stream manager and through the
  provider alike.
\<close>

theorem streamRequest_without_choices_is_silent:
  "calls (StreamManager_streamRequest
       (fetch_always (json_response (JObj [(ustr ''choices'', JArr [])]))) parse_nothing
       (apiUrl keyed_settings) (apiKey keyed_settings) True) = []
   \<and> callbacks (streamRequest keyed_settings
       (fetch_always (json_response (JObj [(ustr ''choices'', JArr [])]))) parse_nothing
       (ustr ''openai/gpt-4o-mini'')) = []"
proof -
  have "json_fallback onR new_session (JObj [(ustr ''choices'', JArr [])]) = Inr new_session" for onR
    by (simp add: json_fallback_def)
  then have "calls (StreamManager_streamRequest
       (fetch_always (json_response (JObj [(ustr ''choices'', JArr [])]))) parse_nothing u k onR) = []"
    for u k onR
    by (simp add: StreamManager_streamRequest_def fetch_always_def handle_fetched_json_response
        new_session_def)
  then show ?thesis
    by (simp add: streamRequest_def keyed_settings_def ustr_def Let_def)
qed


section \<open>The two revisions of the stream manager\<close>

text \<open>
  On every response that does not declare JSON, the revision without reasoning does what
  the other does for a caller that passes no \<open>onReasoning\<close>; the results on streamed
  bodies carry over. On a single JSON document it differs: the document is read as a
  stream without a line feed, and only \<open>onComplete("")\<close> is called.
\<close>

lemma handle_data_plain_eq:
  "handle_data_plain parse s line t = handle_data parse False s line t"
proof (cases "parse (drop 6 t)")
  case None
  then show ?thesis by (simp add: handle_data_plain_def handle_data_def)
next
  case (Some data)
  show ?thesis
  proof (cases "data = JNull")
    case True
    then show ?thesis using Some by (simp add: handle_data_plain_def handle_data_def)
  next
    case False
    have p: "handle_data_plain parse s line t =
        (case opt_member
                (opt_member (opt_first (js_member data (ustr ''choices''))) (ustr ''delta''))
                (ustr ''content'') of
           None \<Rightarrow> s
         | Some delta \<Rightarrow>
             if truthy delta then
               (case js_to_string delta of
                  None \<Rightarrow> s\<lparr>console := console s @ [ConsoleWarn line]\<rparr>
                | Some text \<Rightarrow>
                    s\<lparr>fullText := fullText s @ text,
                      calls := calls s @ [OnToken delta]\<rparr>)
             else s)"
      using Some False by (cases data) (simp_all add: handle_data_plain_def)
    show ?thesis
    proof (cases "opt_member (opt_first (js_member data (ustr ''choices''))) (ustr ''delta'')")
      case None
      then show ?thesis
        by (simp add: p handle_data_event [where parse = parse and t = t, OF Some False])
    next
      case d: (Some delta)
      show ?thesis
      proof (cases "truthy delta")
        case True
        then have "delta \<noteq> JNull" by auto
        then show ?thesis using d True
          by (simp add: p handle_data_event [where parse = parse and t = t, OF Some False]
              opt_member_Some split: option.splits)
      next
        case False
        then show ?thesis using d
          by (simp add: p handle_data_event [where parse = parse and t = t, OF Some \<open>data \<noteq> JNull\<close>]
              opt_member_Some js_member_falsy)
      qed
    qed
  qed
qed

lemma process_line_plain_eq: "process_line_plain parse = process_line parse False"
  by (intro ext) (simp add: process_line_plain_def process_line_def handle_data_plain_eq Let_def)

lemma read_chunk_plain_eq: "read_chunk_plain parse s bytes = read_chunk parse False s bytes"
  by (simp add: read_chunk_plain_def read_chunk_def process_line_plain_eq)

lemma read_loop_plain_eq: "read_loop_plain parse s reader = read_loop parse False s reader"
  by (induction reader arbitrary: s) (simp_all add: read_chunk_plain_eq)

lemma plain_revision_agrees:
  assumes "\<forall>r. fetch \<lparr> url = url', bearer = apiKey', streaming = True \<rparr> = FetchResolved r
             \<longrightarrow> \<not> declares_json r"
  shows "StreamManager_streamRequest_plain fetch parse url' apiKey'
           = StreamManager_streamRequest fetch parse url' apiKey' False"
  using assms
  by (cases "fetch \<lparr> url = url', bearer = apiKey', streaming = True \<rparr>")
    (simp_all add: StreamManager_streamRequest_plain_def StreamManager_streamRequest_def
      handle_fetched_def read_loop_plain_eq)

lemma plain_revision_single_document:
  \<open>calls (StreamManager_streamRequest_plain
      (fetch_always ((json_response (completion_json (ustr ''Hello'')))
         \<lparr>body := reader_of [ascii_bytes ''{"choices":[{"message":{"content":"Hello"}}]}''] Done\<rparr>))
      parse url' apiKey')
     = [OnComplete (JStr [])]\<close>
  by (simp add: StreamManager_streamRequest_plain_def fetch_always_def json_response_def
      read_loop_plain_eq reader_of_def read_chunk_effect new_session_def decode_def
      new_TextDecoder_def utf8_byte_def utf8_lead_def utf8_initial_def utf16_units_def
      ascii_bytes_def)

end
